theory Spec2Isabelle
  imports Complex_Main "HOL-Library.Sublist" "HOL-Library.List_Lexorder" "HOL-Library.Product_Lexorder"
begin

section \<open>Python strings\<close>

text \<open>
  A Python \<open>str\<close> is a sequence of Unicode code points; \<open>len\<close>, slicing, \<open>in\<close> and the
  \<open>re\<close> module all work on code points. A string is therefore a list of code points, each a
  natural number, written in hexadecimal (\<open>0xB099\<close> is U+B099). String comparison in Python
  is lexicographic on code points, which is the list order of \<open>HOL-Library.List_Lexorder\<close>.
\<close>

type_synonym pystr = "nat list"

text \<open>\<open>str.isspace\<close>, also the class \<open>\s\<close> of a \<open>str\<close> pattern and what \<open>str.strip()\<close> and
  \<open>str.split()\<close> treat as whitespace.\<close>

definition py_isspace :: "nat \<Rightarrow> bool" where
  "py_isspace c \<longleftrightarrow>
     (0x09 \<le> c \<and> c \<le> 0x0D) \<or> (0x1C \<le> c \<and> c \<le> 0x20) \<or> c = 0x85 \<or> c = 0xA0 \<or>
     c = 0x1680 \<or> (0x2000 \<le> c \<and> c \<le> 0x200A) \<or> c = 0x2028 \<or> c = 0x2029 \<or>
     c = 0x202F \<or> c = 0x205F \<or> c = 0x3000"

text \<open>\<open>k in s\<close> for strings: \<open>k\<close> occurs in \<open>s\<close> as a contiguous run.\<close>

fun str_in :: "pystr \<Rightarrow> pystr \<Rightarrow> bool" where
  "str_in k [] = (k = [])"
| "str_in k (c # cs) = (prefix k (c # cs) \<or> str_in k cs)"

text \<open>\<open>s.replace(old, new)\<close>: occurrences of \<open>old\<close> are replaced from left to right without
  overlap; an empty \<open>old\<close> matches before every character and at the end.\<close>

function str_replace :: "pystr \<Rightarrow> pystr \<Rightarrow> pystr \<Rightarrow> pystr" where
  "str_replace old new s =
     (if old = [] then new @ concat (map (\<lambda>c. c # new) s)
      else if s = [] then []
      else if prefix old s then new @ str_replace old new (drop (length old) s)
      else hd s # str_replace old new (tl s))"
  by pat_completeness auto
termination
  by (relation "measure (\<lambda>(old, new, s). length s)") auto

declare str_replace.simps [simp del]

text \<open>\<open>s.strip()\<close> and \<open>s.strip(chars)\<close>.\<close>

definition strip_by :: "(nat \<Rightarrow> bool) \<Rightarrow> pystr \<Rightarrow> pystr" where
  "strip_by P s = rev (dropWhile P (rev (dropWhile P s)))"

definition str_strip :: "pystr \<Rightarrow> pystr" where
  "str_strip s = strip_by py_isspace s"

definition str_strip_chars :: "pystr \<Rightarrow> pystr \<Rightarrow> pystr" where
  "str_strip_chars chars s = strip_by (\<lambda>c. c \<in> set chars) s"

text \<open>\<open>s.split()\<close>: the maximal runs of non-whitespace characters.\<close>

fun split_ws_acc :: "pystr \<Rightarrow> pystr \<Rightarrow> pystr list" where
  "split_ws_acc cur [] = (if cur = [] then [] else [cur])"
| "split_ws_acc cur (c # cs) =
     (if py_isspace c then (if cur = [] then split_ws_acc [] cs else cur # split_ws_acc [] cs)
      else split_ws_acc (cur @ [c]) cs)"

definition str_split_ws :: "pystr \<Rightarrow> pystr list" where
  "str_split_ws s = split_ws_acc [] s"

text \<open>\<open>sep.join(parts)\<close>.\<close>

fun str_join :: "pystr \<Rightarrow> pystr list \<Rightarrow> pystr" where
  "str_join sep [] = []"
| "str_join sep [p] = p"
| "str_join sep (p # q # ps) = p @ sep @ str_join sep (q # ps)"

section \<open>Text normalizer (\<open>awards_miner_llm.py\<close>)\<close>

text \<open>
  \<^verbatim>\<open>re.sub(r"[ \t]+", " ", s)\<close> and \<^verbatim>\<open>re.sub(r"\s+", " ", s)\<close>: every maximal run of
  characters of the class becomes one space. The flag says that the previous character
  belonged to such a run, whose space has already been emitted.
\<close>

definition is_hspace :: "nat \<Rightarrow> bool" where
  "is_hspace c \<longleftrightarrow> c = 0x20 \<or> c = 0x09"

fun sub_runs :: "(nat \<Rightarrow> bool) \<Rightarrow> bool \<Rightarrow> pystr \<Rightarrow> pystr" where
  "sub_runs P b [] = []"
| "sub_runs P b (c # cs) =
     (if P c then (if b then sub_runs P True cs else 0x20 # sub_runs P True cs)
      else c # sub_runs P False cs)"

text \<open>
  \<^verbatim>\<open>re.sub(r"\n{3,}", "\n\n", s)\<close>: a maximal run of three or more newlines becomes two
  newlines, shorter runs stay. The counter is the number of newlines of the current run
  that are already in the output.
\<close>

fun sub_newlines :: "nat \<Rightarrow> pystr \<Rightarrow> pystr" where
  "sub_newlines k [] = []"
| "sub_newlines k (c # cs) =
     (if c = 0x0A then (if 2 \<le> k then sub_newlines k cs else 0x0A # sub_newlines (Suc k) cs)
      else c # sub_newlines 0 cs)"

text \<open>\<open>_clean_html_ws\<close>, for a \<open>str\<close> argument (the only kind the callers pass).\<close>

definition amp_nbsp :: pystr where
  "amp_nbsp = [0x26, 0x6E, 0x62, 0x73, 0x70, 0x3B]"

definition clean_html_ws :: "pystr \<Rightarrow> pystr" where
  "clean_html_ws s0 =
     (let s = str_replace [0xFEFF] [] (str_replace [0x200C] [] (str_replace [0x200B] [] s0));
          s = str_replace [0xA0] [0x20] (str_replace amp_nbsp [0x20] s);
          s = str_replace [0x0D] [0x0A] s;
          s = sub_runs is_hspace False s;
          s = sub_newlines 0 s
      in s)"

text \<open>\<open>_truncate(s, n)\<close>; \<open>s[:n - 3]\<close> with a negative bound counts from the end.\<close>

definition py_slice_to :: "pystr \<Rightarrow> int \<Rightarrow> pystr" where
  "py_slice_to s k = (if 0 \<le> k then take (nat k) s else take (length s - nat (- k)) s)"

definition truncate_str :: "pystr \<Rightarrow> nat \<Rightarrow> pystr" where
  "truncate_str s0 n =
     (let s = str_join [0x20] (str_split_ws (clean_html_ws s0))
      in if length s \<le> n then s else py_slice_to s (int n - 3) @ [0x2E, 0x2E, 0x2E])"


section \<open>Regular expressions\<close>

text \<open>
  The patterns of the program are kept as syntax trees and run by a backtracking matcher
  with the priorities of Python's \<open>re\<close>: alternatives are tried from left to right, an
  optional part is tried before its omission, and a repetition takes as many characters
  as it can and gives them back one at a time. Every repetition in the program's
  patterns is over a single character class, so that is the only repetition here.
\<close>

datatype rx =
    Lit pystr
  | Cls "nat \<Rightarrow> bool"
  | Seq rx rx
  | Alt rx rx
  | Opt rx
  | Rep "nat \<Rightarrow> bool" nat "nat option"
  | Grp nat rx

text \<open>The captures are the spans of the groups closed so far, the latest first.\<close>

type_synonym caps = "(nat \<times> nat \<times> nat) list"

text \<open>\<open>C{m,n}\<close>, greedy, at position \<open>i\<close> with \<open>s\<close> still to read; \<open>None\<close> is no upper bound.\<close>

fun rep_match :: "(nat \<Rightarrow> bool) \<Rightarrow> nat \<Rightarrow> nat option \<Rightarrow> nat \<Rightarrow> pystr \<Rightarrow>
    (nat \<Rightarrow> pystr \<Rightarrow> 'a option) \<Rightarrow> 'a option" where
  "rep_match P m n i [] k = (if m = 0 then k i [] else None)"
| "rep_match P m n i (x # xs) k =
     (if P x \<and> n \<noteq> Some 0 then
        (case rep_match P (m - 1) (map_option (\<lambda>j. j - 1) n) (Suc i) xs k of
           Some r \<Rightarrow> Some r
         | None \<Rightarrow> if m = 0 then k i (x # xs) else None)
      else if m = 0 then k i (x # xs) else None)"

fun rx_match :: "rx \<Rightarrow> nat \<Rightarrow> pystr \<Rightarrow> caps \<Rightarrow> (nat \<Rightarrow> pystr \<Rightarrow> caps \<Rightarrow> 'a option) \<Rightarrow> 'a option" where
  "rx_match (Lit l) i s c k = (if prefix l s then k (i + length l) (drop (length l) s) c else None)"
| "rx_match (Cls P) i s c k = (case s of [] \<Rightarrow> None | x # xs \<Rightarrow> if P x then k (Suc i) xs c else None)"
| "rx_match (Seq a b) i s c k = rx_match a i s c (\<lambda>j t d. rx_match b j t d k)"
| "rx_match (Alt a b) i s c k =
     (case rx_match a i s c k of Some r \<Rightarrow> Some r | None \<Rightarrow> rx_match b i s c k)"
| "rx_match (Opt a) i s c k =
     (case rx_match a i s c k of Some r \<Rightarrow> Some r | None \<Rightarrow> k i s c)"
| "rx_match (Rep P m n) i s c k = rep_match P m n i s (\<lambda>j t. k j t c)"
| "rx_match (Grp g a) i s c k = rx_match a i s c (\<lambda>j t d. k j t ((g, i, j) # d))"

text \<open>A match object: \<open>m.span()\<close> and the spans of the groups that took part.\<close>

record rmatch =
  m_start :: nat
  m_end :: nat
  m_caps :: caps

definition match_at :: "rx \<Rightarrow> pystr \<Rightarrow> nat \<Rightarrow> rmatch option" where
  "match_at r text i =
     rx_match r i (drop i text) [] (\<lambda>j t d. Some \<lparr>m_start = i, m_end = j, m_caps = d\<rparr>)"

text \<open>
  \<open>r.finditer(text)\<close> from position \<open>i\<close>: the leftmost match, then the search goes on where
  it ended. No pattern of the program matches the empty string; after an empty match the
  search here moves one character on.
\<close>

function finditer_from :: "rx \<Rightarrow> pystr \<Rightarrow> nat \<Rightarrow> rmatch list" where
  "finditer_from r text i =
     (if length text < i then []
      else case match_at r text i of
             None \<Rightarrow> finditer_from r text (Suc i)
           | Some m \<Rightarrow> m # finditer_from r text (if i < m_end m then m_end m else Suc i))"
  by pat_completeness auto
termination
  by (relation "measure (\<lambda>(r, text, i). Suc (length text) - i)") auto

declare finditer_from.simps [simp del]

definition finditer :: "rx \<Rightarrow> pystr \<Rightarrow> rmatch list" where
  "finditer r text = finditer_from r text 0"

text \<open>\<open>r.search(text)\<close>: the first match of the scan, if any.\<close>

definition re_search :: "rx \<Rightarrow> pystr \<Rightarrow> rmatch option" where
  "re_search r text = (case finditer r text of [] \<Rightarrow> None | m # ms \<Rightarrow> Some m)"

text \<open>\<open>text[a:b]\<close> for \<open>0 \<le> a\<close>, \<open>0 \<le> b\<close>.\<close>

definition slice :: "pystr \<Rightarrow> nat \<Rightarrow> nat \<Rightarrow> pystr" where
  "slice text a b = take (b - a) (drop a text)"

text \<open>\<open>m.group(g)\<close>: \<open>None\<close> when the group took no part in the match.\<close>

definition m_group :: "pystr \<Rightarrow> rmatch \<Rightarrow> nat \<Rightarrow> pystr option" where
  "m_group text m g = map_option (\<lambda>(a, b). slice text a b) (map_of (m_caps m) g)"

text \<open>\<open>m.groups()\<close> for a pattern with \<open>n\<close> groups.\<close>

definition m_groups :: "pystr \<Rightarrow> rmatch \<Rightarrow> nat \<Rightarrow> pystr option list" where
  "m_groups text m n = map (m_group text m) [1..<Suc n]"

text \<open>\<open>r.sub(repl, text)\<close> for a replacement without group references.\<close>

fun sub_matches :: "pystr \<Rightarrow> pystr \<Rightarrow> nat \<Rightarrow> rmatch list \<Rightarrow> pystr" where
  "sub_matches repl text p [] = drop p text"
| "sub_matches repl text p (m # ms) =
     slice text p (m_start m) @ repl @ sub_matches repl text (m_end m) ms"

definition re_sub :: "rx \<Rightarrow> pystr \<Rightarrow> pystr \<Rightarrow> pystr" where
  "re_sub r repl text = sub_matches repl text 0 (finditer r text)"

text \<open>\<open>(?:k1|k2|...)\<close> over literal alternatives.\<close>

fun alts :: "pystr list \<Rightarrow> rx" where
  "alts [] = Cls (\<lambda>c. False)"
| "alts [k] = Lit k"
| "alts (k # ks) = Alt (Lit k) (alts ks)"

text \<open>\<open>re.split(r"[...]", text)\<close> on a class of single characters.\<close>

fun split_on_acc :: "(nat \<Rightarrow> bool) \<Rightarrow> pystr \<Rightarrow> pystr \<Rightarrow> pystr list" where
  "split_on_acc P cur [] = [cur]"
| "split_on_acc P cur (c # cs) =
     (if P c then cur # split_on_acc P [] cs else split_on_acc P (cur @ [c]) cs)"

definition split_on :: "(nat \<Rightarrow> bool) \<Rightarrow> pystr \<Rightarrow> pystr list" where
  "split_on P s = split_on_acc P [] s"

section \<open>The Unicode character database\<close>

text \<open>
  \<open>str.isalpha\<close>, \<open>str.isdigit\<close> and the class \<open>\d\<close> (the decimal digits, \<open>str.isdecimal\<close>)
  are tables of the interpreter's Unicode database. They are a parameter of the model:
  every general theorem holds for any tables, and the examples are evaluated with
  \<open>ucd_basic\<close>, which has the ASCII letters and digits and the Hangul syllables, and
  agrees with the database on every character of the examples.
\<close>

record ucd =
  ucd_isalpha :: "nat \<Rightarrow> bool"
  ucd_isdigit :: "nat \<Rightarrow> bool"
  ucd_isdecimal :: "nat \<Rightarrow> bool"

definition is_hangul :: "nat \<Rightarrow> bool" where
  "is_hangul c \<longleftrightarrow> 0xAC00 \<le> c \<and> c \<le> 0xD7A3"

definition is_ascii_letter :: "nat \<Rightarrow> bool" where
  "is_ascii_letter c \<longleftrightarrow> (0x41 \<le> c \<and> c \<le> 0x5A) \<or> (0x61 \<le> c \<and> c \<le> 0x7A)"

definition is_ascii_digit :: "nat \<Rightarrow> bool" where
  "is_ascii_digit c \<longleftrightarrow> 0x30 \<le> c \<and> c \<le> 0x39"

definition ucd_basic :: ucd where
  "ucd_basic =
     \<lparr>ucd_isalpha = (\<lambda>c. is_ascii_letter c \<or> is_hangul c),
      ucd_isdigit = is_ascii_digit,
      ucd_isdecimal = is_ascii_digit\<rparr>"

section \<open>Company names (\<open>awards_miner_llm.py\<close>)\<close>

text \<open>The ban-list: labels and fragments of procurement documents, not company names.\<close>

definition BAN_TOKENS :: "pystr list" where
  "BAN_TOKENS =
     [[0xACB0, 0xC815, 0xAE30, 0xC900],
      [0xACB0, 0xC815, 0xBC29, 0xC2DD],
      [0xC720, 0xC758, 0xC0AC, 0xD56D],
      [0xC81C, 0xC548, 0xC694, 0xCCAD, 0xC11C],
      [0x52, 0x46, 0x50],
      [0xC81C, 0xC548, 0xC11C],
      [0xB0B4, 0xC6A9, 0xC774],
      [0xC0C1, 0xC138],
      [0xACC4, 0xD68D, 0xC11C],
      [0xC2DC, 0xD5D8, 0xC6B4, 0xC601],
      [0xD3C9, 0xAC00, 0xAE30, 0xC900],
      [0xAC00, 0xC810],
      [0xAC10, 0xC810],
      [0xBC30, 0xC810],
      [0xD3C9, 0xAC00, 0xD45C],
      [0xC81C, 0xCD9C, 0xC11C, 0xB958],
      [0xC785, 0xCC30, 0xACF5, 0xACE0],
      [0xC81C, 0xC548, 0xC694, 0xCCAD],
      [0xACF5, 0xACE0],
      [0xBC1C, 0xC8FC],
      [0xACFC, 0xC5C5],
      [0xBC94, 0xC704],
      [0xBAA9, 0xC801],
      [0xAC00, 0x20, 0xC81C, 0xC548, 0xD55C],
      [0xC5D0, 0xB300, 0xD574, 0xACB0, 0xACFC],
      [0xC5D0, 0xC11C, 0x20, 0xC81C, 0xC678, 0xD568],
      [0xD1B5, 0xBCF4],
      [0xD544, 0xC694, 0xC2DC],
      [0xD574, 0xC57C, 0x20, 0xD558, 0xBA70]]"

text \<open>Tokens that mark a company name.\<close>

definition COMPANY_HINTS :: "pystr list" where
  "COMPANY_HINTS =
     [[0xC8FC, 0xC2DD, 0xD68C, 0xC0AC],
      [0x321C],
      [0x28, 0xC8FC, 0x29],
      [0x28, 0xC720, 0x29],
      [0xC720, 0xD55C],
      [0xC7AC, 0xB2E8],
      [0xD611, 0xB3D9, 0xC870, 0xD569],
      [0xCEE8, 0xC18C, 0xC2DC, 0xC5C4],
      [0xC5D4, 0xC9C0, 0xB2C8, 0xC5B4, 0xB9C1],
      [0xC2DC, 0xC2A4, 0xD15C],
      [0xC815, 0xBCF4],
      [0xD14C, 0xD06C],
      [0xC194, 0xB8E8, 0xC158],
      [0xCEE8, 0xC124, 0xD305],
      [0xAC1C, 0xBC1C],
      [0xC0B0, 0xC5C5],
      [0xC804, 0xC790],
      [0xD1B5, 0xC2E0],
      [0xC18C, 0xD504, 0xD2B8],
      [0xB370, 0xC774, 0xD130],
      [0xB300, 0xD559, 0xAD50, 0x20, 0xC0B0, 0xD559, 0xD611, 0xB825, 0xB2E8],
      [0xC0B0, 0xD559, 0xD611, 0xB825, 0xB2E8],
      [0xD611, 0xD68C],
      [0xC5F0, 0xAD6C, 0xC6D0],
      [0xC5F0, 0xAD6C, 0xC18C],
      [0xCF54, 0xB9AC, 0xC544],
      [0x49, 0x4E, 0x43],
      [0x4C, 0x54, 0x44],
      [0x43, 0x6F, 0x2E],
      [0x43, 0x6F, 0x72, 0x70],
      [0x43, 0x6F, 0x6D, 0x70, 0x61, 0x6E, 0x79],
      [0x4C, 0x69, 0x6D, 0x69, 0x74, 0x65, 0x64]]"

definition has_company_hint :: "pystr \<Rightarrow> bool" where
  "has_company_hint name = list_ex (\<lambda>h. str_in h name) COMPANY_HINTS"

text \<open>The legal-form markers of \<open>COMPANY_CLEAN_PAT\<close>:
  \<^verbatim>\<open>\s*(?:...|...|\(..\)|\(..\))\s*\<close> with the four markers below.\<close>

definition CORP_MARKERS :: "pystr list" where
  "CORP_MARKERS =
     [[0xC8FC, 0xC2DD, 0xD68C, 0xC0AC],
      [0x321C],
      [0x28, 0xC8FC, 0x29],
      [0x28, 0xC720, 0x29]]"

definition COMPANY_CLEAN_PAT :: rx where
  "COMPANY_CLEAN_PAT =
     Seq (Rep py_isspace 0 None) (Seq (alts CORP_MARKERS) (Rep py_isspace 0 None))"

text \<open>The characters of \<^verbatim>\<open>n.strip(" ,.;:\<close>U+00B7\<^verbatim>\<open>-()[]|")\<close>.\<close>

definition STRIP_CHARS :: pystr where
  "STRIP_CHARS = [0x20, 0x2C, 0x2E, 0x3B, 0x3A, 0xB7, 0x2D, 0x28, 0x29, 0x5B, 0x5D, 0x7C]"

text \<open>
  \<open>_norm_company\<close> for a \<open>str\<close> argument. \<open>letters / max(1, len(n)) < 0.6\<close> is a
  comparison of floats in the source; it is written here over the integers as
  \<open>5 * letters < 3 * max(1, len(n))\<close>, which decides the same for every string shorter
  than \<open>10^15\<close> characters.
\<close>

definition count_letters :: "ucd \<Rightarrow> pystr \<Rightarrow> nat" where
  "count_letters U n = length (filter (\<lambda>ch. ucd_isalpha U ch \<or> ucd_isdigit U ch) n)"

definition norm_candidate :: "pystr \<Rightarrow> pystr" where
  "norm_candidate name =
     (let n = clean_html_ws name;
          n = str_strip (sub_runs py_isspace False n);
          n = str_strip (re_sub COMPANY_CLEAN_PAT [] n);
          n = str_strip_chars STRIP_CHARS n
      in n)"

definition norm_company :: "ucd \<Rightarrow> pystr \<Rightarrow> pystr option" where
  "norm_company U name =
     (if name = [] then None
      else let n = norm_candidate name in
        if n = [] \<or> length n < 2 then None
        else if list_ex (\<lambda>k. str_in k n) BAN_TOKENS then None
        else if \<not> list_ex (\<lambda>c. is_hangul c \<or> is_ascii_letter c) n then None
        else if \<not> str_in [0x20] n \<and> 16 \<le> length n \<and> \<not> has_company_hint n then None
        else if 5 * count_letters U n < 3 * max 1 (length n) then None
        else if (length n = 1 \<or> length n = 2) \<and> list_all is_hangul n then None
        else Some n)"

text \<open>The unit tokens of \<open>_is_number_like\<close>.\<close>

definition NUMBER_UNITS :: "pystr list" where
  "NUMBER_UNITS =
     [[0xC6D0],
      [0xB9CC, 0xC6D0],
      [0xC5B5, 0xC6D0],
      [0xCC9C, 0xB9CC, 0xC6D0],
      [0xBC31, 0xB9CC, 0xC6D0],
      [0x4B, 0x52, 0x57],
      [0x20A9]]"

definition is_number_like :: "ucd \<Rightarrow> pystr \<Rightarrow> bool" where
  "is_number_like U x \<longleftrightarrow> list_ex (ucd_isdecimal U) x \<or> list_ex (\<lambda>u. str_in u x) NUMBER_UNITS"

section \<open>The deterministic candidate extractor (\<open>awards_miner_llm.py\<close>)\<close>

definition WINNER_KEYS :: "pystr list" where
  "WINNER_KEYS =
     [[0xB099, 0xCC30, 0xC790],
      [0xB099, 0xCC30, 0x20, 0xC5C5, 0xCCB4],
      [0xB099, 0xCC30, 0xC5C5, 0xCCB4],
      [0xC6B0, 0xC120, 0xD611, 0xC0C1, 0xB300, 0xC0C1, 0xC790],
      [0xACC4, 0xC57D, 0xC0C1, 0xB300, 0xC790],
      [0xC120, 0xC815, 0x20, 0xC5C5, 0xCCB4],
      [0xC120, 0xC815, 0xC5C5, 0xCCB4],
      [0xC6B0, 0xC120, 0xD611, 0xC0C1, 0x20, 0xB300, 0xC0C1, 0xC790]]"

definition AGENCY_KEYS :: "pystr list" where
  "AGENCY_KEYS =
     [[0xBC1C, 0xC8FC, 0xAE30, 0xAD00],
      [0xC218, 0xC694, 0xAE30, 0xAD00],
      [0xAD6C, 0xB9E4, 0xAE30, 0xAD00],
      [0xBC1C, 0xC8FC, 0x20, 0xBD80, 0xC11C],
      [0xACC4, 0xC57D, 0xAE30, 0xAD00],
      [0xACC4, 0xC57D, 0xBD80, 0xC11C],
      [0xBC1C, 0xC8FC, 0xCC98],
      [0xC218, 0xC694, 0xCC98]]"

definition REASON_KEYS :: "pystr list" where
  "REASON_KEYS =
     [[0xC0AC, 0xC720],
      [0xADFC, 0xAC70],
      [0xD3C9, 0xAC00],
      [0xC815, 0xC131],
      [0xC815, 0xB7C9],
      [0xC6B0, 0xC218],
      [0xAE30, 0xC220],
      [0xAC00, 0xACA9],
      [0xB099, 0xCC30],
      [0xC120, 0xC815]]"

text \<open>The labels of \<open>COMPANY_REGEX_B\<close>.\<close>

definition LABEL_KEYS :: "pystr list" where
  "LABEL_KEYS =
     [[0xC5C5, 0xCCB4, 0xBA85],
      [0xC0AC, 0xC5C5, 0xC790],
      [0xC81C, 0xC548, 0xC0AC],
      [0xC5C5, 0xCCB4]]"

text \<open>The labels and the units of \<open>AMOUNT_REGEX\<close>.\<close>

definition AMOUNT_KEYS :: "pystr list" where
  "AMOUNT_KEYS =
     [[0xB099, 0xCC30, 0xAE08, 0xC561],
      [0xACC4, 0xC57D, 0xAE08, 0xC561],
      [0xCD94, 0xC815, 0xAC00, 0xACA9],
      [0xD22C, 0xCC30, 0xAE08, 0xC561]]"

definition AMOUNT_UNITS :: "pystr list" where
  "AMOUNT_UNITS =
     [[0xC6D0],
      [0xC5B5, 0xC6D0],
      [0xCC9C, 0xB9CC, 0xC6D0],
      [0xBC31, 0xB9CC, 0xC6D0],
      [0x4B, 0x52, 0x57],
      [0x20A9]]"

text \<open>
  The character classes. The company patterns are compiled with \<open>re.IGNORECASE\<close>, under
  which \<open>[A-Za-z]\<close> also matches U+0130, U+0131, U+017F and U+212A; no other character of
  the patterns has a case variant.
\<close>

definition cls_prefix :: "nat \<Rightarrow> bool" where
  "cls_prefix c \<longleftrightarrow> c \<in> set [0x321C, 0x28, 0xC8FC, 0x29, 0x28, 0xC720, 0x29]"

definition cls_company :: "nat \<Rightarrow> bool" where
  "cls_company c \<longleftrightarrow>
     is_hangul c \<or> is_ascii_letter c \<or> c \<in> set [0x130, 0x131, 0x17F, 0x212A] \<or>
     is_ascii_digit c \<or> c \<in> set [0x26, 0x2E, 0x2C, 0x2D, 0xB7, 0x28, 0x29, 0x20]"

definition cls_sep :: "nat \<Rightarrow> bool" where
  "cls_sep c \<longleftrightarrow> c \<in> set [0x3A, 0xFF1A, 0x2D, 0x2013]"

definition cls_amount :: "nat \<Rightarrow> bool" where
  "cls_amount c \<longleftrightarrow> is_ascii_digit c \<or> c = 0x2C \<or> c = 0x2E \<or> py_isspace c"

definition cls_any :: "nat \<Rightarrow> bool" where
  "cls_any c \<longleftrightarrow> True"

text \<open>\<open>KOR_COMPANY_PAT\<close>:
  \<^verbatim>\<open>(?:....\s*)?[......]?\s*[..-..A-Za-z0-9&.,\-.() ]{2,60}\<close>\<close>

definition KOR_COMPANY_PAT :: rx where
  "KOR_COMPANY_PAT =
     Seq (Opt (Seq (Lit [0xC8FC, 0xC2DD, 0xD68C, 0xC0AC]) (Rep py_isspace 0 None)))
       (Seq (Opt (Cls cls_prefix))
         (Seq (Rep py_isspace 0 None) (Rep cls_company 2 (Some 60))))"

text \<open>The label part shared by the patterns: \<^verbatim>\<open>\s*[:...\-...]?\s*\<close>.\<close>

definition LABEL_SEP :: "rx \<Rightarrow> rx" where
  "LABEL_SEP r = Seq (Rep py_isspace 0 None) (Seq (Opt (Cls cls_sep)) (Seq (Rep py_isspace 0 None) r))"

definition COMPANY_REGEX_A :: rx where
  "COMPANY_REGEX_A = Seq (alts WINNER_KEYS) (LABEL_SEP (Grp 1 KOR_COMPANY_PAT))"

definition COMPANY_REGEX_B :: rx where
  "COMPANY_REGEX_B = Seq (alts LABEL_KEYS) (LABEL_SEP (Grp 1 KOR_COMPANY_PAT))"

definition COMPANY_NEAR_WINNER :: rx where
  "COMPANY_NEAR_WINNER =
     Alt (Seq (Grp 1 (alts WINNER_KEYS)) (Seq (Rep cls_any 0 (Some 40)) (Grp 2 KOR_COMPANY_PAT)))
         (Seq (Grp 3 KOR_COMPANY_PAT) (Seq (Rep cls_any 0 (Some 40)) (Grp 4 (alts WINNER_KEYS))))"

definition AMOUNT_REGEX :: rx where
  "AMOUNT_REGEX =
     Seq (alts AMOUNT_KEYS)
       (LABEL_SEP (Grp 1 (Seq (Cls is_ascii_digit) (Seq (Rep cls_amount 0 None)
          (Seq (Rep py_isspace 0 None) (Opt (alts AMOUNT_UNITS)))))))"

definition AGENCY_REGEX :: rx where
  "AGENCY_REGEX = Seq (alts AGENCY_KEYS) (LABEL_SEP (Grp 1 (Rep cls_company 2 (Some 60))))"

text \<open>\<open>_company_score\<close>.\<close>

definition company_score :: "ucd \<Rightarrow> pystr \<Rightarrow> pystr \<Rightarrow> nat \<times> nat \<Rightarrow> int" where
  "company_score U raw_name ctx key_span =
     (let n = raw_name;
          n_norm = (case norm_company U n of None \<Rightarrow> [] | Some x \<Rightarrow> x)
      in if n_norm = [] then - 999
         else
           let s1 = (if has_company_hint n \<or> has_company_hint n_norm then 2 else 0);
               s2 = (if str_in [0x20] n_norm \<or> prefix [0x28, 0xC8FC, 0x29] n \<or> prefix [0x321C] n \<or>
                        prefix [0x28, 0xC8FC, 0x29] n_norm \<or> prefix [0x321C] n_norm \<or>
                        prefix [0x28, 0xC720, 0x29] n \<or> prefix [0x28, 0xC720, 0x29] n_norm
                     then 1 else 0);
               s3 = (if \<not> str_in [0x20] n_norm \<and> 16 \<le> length n_norm \<and> \<not> has_company_hint n_norm
                     then - 2 else 0);
               start = fst key_span - 40;
               stop = min (length ctx) (snd key_span + 40);
               window = slice ctx start stop;
               s4 = (if str_in n window \<or> str_in n_norm window then 1 else 0)
           in s1 + s2 + s3 + s4)"

text \<open>A candidate of \<open>winners_raw\<close>: the dictionary with the keys \<open>name\<close>, \<open>amount\<close>, \<open>_score\<close>
  and \<open>_pos\<close>.\<close>

record candidate =
  c_name :: pystr
  c_amount :: "pystr option"
  c_score :: int
  c_pos :: "nat \<times> nat"

text \<open>The first group of \<open>m.groups()\<close> that is neither \<open>None\<close> nor empty.\<close>

definition first_group :: "pystr option list \<Rightarrow> pystr option" where
  "first_group gs = (case List.find (\<lambda>g. g \<noteq> None \<and> g \<noteq> Some []) gs of None \<Rightarrow> None | Some g \<Rightarrow> g)"

text \<open>The body of the loop over the matches of one pattern: the candidate the match adds
  to \<open>winners_raw\<close>, if any.\<close>

definition candidate_of :: "ucd \<Rightarrow> pystr \<Rightarrow> nat \<Rightarrow> rmatch \<Rightarrow> candidate list" where
  "candidate_of U text ngroups m =
     (case first_group (m_groups text m ngroups) of
        None \<Rightarrow> []
      | Some cand \<Rightarrow>
          let score = company_score U cand text (m_start m, m_end m) in
          if score < 2 then []
          else case norm_company U cand of
                 None \<Rightarrow> []
               | Some nm \<Rightarrow> [\<lparr>c_name = nm, c_amount = None, c_score = score,
                               c_pos = (m_start m, m_end m)\<rparr>])"

text \<open>The three company patterns in the order of the loop, each with its number of groups.\<close>

definition COMPANY_PATTERNS :: "(rx \<times> nat) list" where
  "COMPANY_PATTERNS = [(COMPANY_REGEX_A, 1), (COMPANY_REGEX_B, 1), (COMPANY_NEAR_WINNER, 4)]"

definition winners_raw :: "ucd \<Rightarrow> pystr \<Rightarrow> candidate list" where
  "winners_raw U text =
     concat (map (\<lambda>(r, n). concat (map (candidate_of U text n) (finditer r text))) COMPANY_PATTERNS)"

text \<open>
  One amount match: the candidates are sorted by the distance of their start to the
  start of the amount (a stable sort), and the first of the nearest three that has no
  amount yet takes it. The source sorts references to the dictionaries of \<open>winners_raw\<close>
  and updates one of them in place; here the indices are sorted.
\<close>

definition assign_amount :: "ucd \<Rightarrow> pystr \<Rightarrow> candidate list \<Rightarrow> rmatch \<Rightarrow> candidate list" where
  "assign_amount U text ws m =
     (let amt = str_strip (case m_group text m 1 of None \<Rightarrow> [] | Some g \<Rightarrow> g) in
      if ws \<noteq> [] \<and> is_number_like U amt then
        let pos = m_start m;
            order = sort_key (\<lambda>i. \<bar>int pos - int (fst (c_pos (ws ! i)))\<bar>) [0..<length ws]
        in case List.find (\<lambda>i. c_amount (ws ! i) = None \<or> c_amount (ws ! i) = Some []) (take 3 order) of
             None \<Rightarrow> ws
           | Some i \<Rightarrow> ws[i := (ws ! i)\<lparr>c_amount := Some amt\<rparr>]
      else ws)"

definition assign_amounts :: "ucd \<Rightarrow> pystr \<Rightarrow> candidate list \<Rightarrow> candidate list" where
  "assign_amounts U text ws = foldl (assign_amount U text) ws (finditer AMOUNT_REGEX text)"

text \<open>The agency: the first match of \<open>AGENCY_REGEX\<close>, normalised as a company name.\<close>

definition find_agency :: "ucd \<Rightarrow> pystr \<Rightarrow> pystr option" where
  "find_agency U text =
     (case re_search AGENCY_REGEX text of
        None \<Rightarrow> None
      | Some m \<Rightarrow> (case m_group text m 1 of None \<Rightarrow> None | Some g \<Rightarrow> norm_company U g))"

text \<open>The reasons: the pieces of \<^verbatim>\<open>re.split(r"[\n\.]", text)\<close> that hold a reason keyword.\<close>

definition add_reason :: "pystr list \<Rightarrow> pystr \<Rightarrow> pystr list" where
  "add_reason reasons sent =
     (let s = str_strip sent in
      if s = [] then reasons
      else if list_ex (\<lambda>k. str_in k s) REASON_KEYS then
        (let t = truncate_str s 100 in if t \<noteq> [] \<and> t \<notin> set reasons then reasons @ [t] else reasons)
      else reasons)"

definition find_reasons :: "pystr \<Rightarrow> pystr list" where
  "find_reasons text = foldl add_reason [] (split_on (\<lambda>c. c = 0x0A \<or> c = 0x2E) text)"

section \<open>JSON values\<close>

text \<open>
  What \<open>json.loads\<close> returns, and what the payloads hold. A dictionary is the list of its
  items in insertion order. A number is a JSON integer here: a JSON real (also \<open>NaN\<close> and
  \<open>Infinity\<close>) takes the same branches as the integer \<open>1\<close> (or as \<open>0\<close>, for \<open>0.0\<close>) in all
  that is modelled.
\<close>

datatype json = JNull | JBool bool | JNum int | JStr pystr | JList "json list"
  | JDict "(pystr \<times> json) list"

text \<open>Truth value of a Python object.\<close>

fun truthy :: "json \<Rightarrow> bool" where
  "truthy JNull = False"
| "truthy (JBool b) = b"
| "truthy (JNum n) = (n \<noteq> 0)"
| "truthy (JStr s) = (s \<noteq> [])"
| "truthy (JList xs) = (xs \<noteq> [])"
| "truthy (JDict kvs) = (kvs \<noteq> [])"

text \<open>\<open>d.get(k) or dflt\<close>.\<close>

definition get_or :: "(pystr \<times> json) list \<Rightarrow> pystr \<Rightarrow> json \<Rightarrow> json" where
  "get_or d k dflt = (case map_of d k of None \<Rightarrow> dflt | Some v \<Rightarrow> if truthy v then v else dflt)"

datatype py_error = TypeError | OverflowError

text \<open>\<open>for x in v\<close>: a list gives its elements, a dictionary its keys, a string its
  characters; anything else raises \<open>TypeError\<close>.\<close>

fun py_iter :: "json \<Rightarrow> py_error + json list" where
  "py_iter (JList xs) = Inr xs"
| "py_iter (JDict kvs) = Inr (map (\<lambda>(k, v). JStr k) kvs)"
| "py_iter (JStr s) = Inr (map (\<lambda>c. JStr [c]) s)"
| "py_iter v = Inl TypeError"

text \<open>\<open>_norm_company\<close> on an arbitrary object: anything but a string is either falsy or
  cleaned to the empty string, and rejected.\<close>

definition norm_company_json :: "ucd \<Rightarrow> json \<Rightarrow> pystr option" where
  "norm_company_json U v = (case v of JStr s \<Rightarrow> norm_company U s | _ \<Rightarrow> None)"

section \<open>The extraction of one page (\<open>awards_miner_llm.py\<close>)\<close>

text \<open>A winner as the extraction paths return it: the dictionary with \<open>name\<close> and \<open>amount\<close>.\<close>

record winner =
  w_name :: pystr
  w_amount :: json

text \<open>Removal of repeated names, the first occurrence kept (the two \<open>uniq\<close> loops).\<close>

fun dedup_names :: "pystr list \<Rightarrow> winner list \<Rightarrow> winner list" where
  "dedup_names seen [] = []"
| "dedup_names seen (w # ws) =
     (if w_name w \<noteq> [] \<and> w_name w \<notin> set seen then w # dedup_names (w_name w # seen) ws
      else dedup_names seen ws)"

text \<open>\<open>_fallback_extract\<close>.\<close>

definition candidate_winner :: "candidate \<Rightarrow> winner" where
  "candidate_winner c =
     \<lparr>w_name = c_name c, w_amount = (case c_amount c of None \<Rightarrow> JNull | Some a \<Rightarrow> JStr a)\<rparr>"

definition fallback_extract :: "ucd \<Rightarrow> pystr \<Rightarrow> winner list \<times> pystr list \<times> pystr option" where
  "fallback_extract U text0 =
     (let text = clean_html_ws text0 in
      if text = [] then ([], [], None)
      else
        let raw = assign_amounts U text (winners_raw U text);
            agency = find_agency U text;
            reasons = find_reasons text;
            sorted_raw = sort_key (\<lambda>w. (- c_score w, c_name w)) raw;
            dedup_winners = dedup_names [] (map candidate_winner sorted_raw)
        in (take 10 dedup_winners, take 10 reasons, agency))"

text \<open>\<^verbatim>\<open>re.split(r"\n{2,}", body)\<close>: the text between the runs of two or more newlines. The
  flag says that the previous character belonged to such a run.\<close>

fun split_paras :: "pystr \<Rightarrow> bool \<Rightarrow> pystr \<Rightarrow> pystr list" where
  "split_paras cur insep [] = [cur]"
| "split_paras cur insep (c # cs) =
     (if c = 0x0A then
        (if insep then split_paras cur True cs
         else (case cs of
                 [] \<Rightarrow> split_paras (cur @ [c]) False cs
               | d # ds \<Rightarrow> if d = 0x0A then cur # split_paras [] True cs
                           else split_paras (cur @ [c]) False cs))
      else split_paras (cur @ [c]) False cs)"

text \<open>\<open>_chunk_text\<close>: the loop state is the chunks closed so far and the current chunk.\<close>

definition chunk_step :: "nat \<Rightarrow> pystr list \<times> pystr \<Rightarrow> pystr \<Rightarrow> pystr list \<times> pystr" where
  "chunk_step max_len st p =
     (case st of (chunks, cur) \<Rightarrow>
        if length cur + length p + 2 \<le> max_len
        then (chunks, cur @ (if cur \<noteq> [] then [0x0A, 0x0A] else []) @ p)
        else (if cur \<noteq> [] then chunks @ [cur] else chunks, p))"

definition chunk_text :: "pystr \<Rightarrow> nat \<Rightarrow> pystr list" where
  "chunk_text body0 max_len =
     (let body = clean_html_ws body0 in
      if length body \<le> max_len then [body]
      else case foldl (chunk_step max_len) ([], []) (split_paras [] False body) of
             (chunks, cur) \<Rightarrow> if cur \<noteq> [] then chunks @ [cur] else chunks)"

text \<open>
  The probabilistic capability. Sending the prompt (\<open>_llm_send_with_retry\<close>) and parsing
  the reply (\<open>_json_loose_load\<close>) always end in a dictionary, empty after any failure;
  the capability is the function that gives this dictionary for the \<open>k\<close>-th prompt of
  the call, built from the title, the URL and the chunk. Nothing is assumed about it.
\<close>

type_synonym llm = "nat \<Rightarrow> pystr \<Rightarrow> pystr \<Rightarrow> pystr \<Rightarrow> (pystr \<times> json) list"

definition key_winners :: pystr where "key_winners = [0x77, 0x69, 0x6E, 0x6E, 0x65, 0x72, 0x73]"
definition key_reasons :: pystr where "key_reasons = [0x72, 0x65, 0x61, 0x73, 0x6F, 0x6E, 0x73]"
definition key_agency :: pystr where "key_agency = [0x61, 0x67, 0x65, 0x6E, 0x63, 0x79]"
definition key_name :: pystr where "key_name = [0x6E, 0x61, 0x6D, 0x65]"
definition key_amount :: pystr where "key_amount = [0x61, 0x6D, 0x6F, 0x75, 0x6E, 0x74]"

text \<open>A \<open>Counter\<close>: the items in insertion order.\<close>

type_synonym counter = "(pystr \<times> nat) list"

fun counter_inc :: "pystr \<Rightarrow> counter \<Rightarrow> counter" where
  "counter_inc k [] = [(k, 1)]"
| "counter_inc k ((k', n) # xs) = (if k = k' then (k', Suc n) # xs else (k', n) # counter_inc k xs)"

text \<open>\<open>c.most_common(n)\<close>: the items by descending count, equal counts in insertion order
  (\<open>heapq.nlargest\<close> is \<open>sorted(..., reverse=True)[:n]\<close>, a stable sort).\<close>

definition most_common :: "nat \<Rightarrow> counter \<Rightarrow> counter" where
  "most_common n c = take n (sort_key (\<lambda>(k, v). - int v) c)"

text \<open>The state of the chunk loop of \<open>_call_llm\<close>: \<open>winners_all\<close>, \<open>reasons_all\<close> and
  \<open>agency_votes\<close>.\<close>

type_synonym chunk_state = "winner list \<times> pystr list \<times> counter"

definition chunk_winner :: "ucd \<Rightarrow> json \<Rightarrow> winner list" where
  "chunk_winner U w =
     (case w of
        JDict d \<Rightarrow>
          (case norm_company_json U (case map_of d key_name of None \<Rightarrow> JStr [] | Some v \<Rightarrow> v) of
             None \<Rightarrow> []
           | Some nm \<Rightarrow>
               [\<lparr>w_name = nm, w_amount = (case map_of d key_amount of None \<Rightarrow> JNull | Some v \<Rightarrow> v)\<rparr>])
      | _ \<Rightarrow> [])"

definition chunk_reason :: "json \<Rightarrow> pystr list" where
  "chunk_reason r =
     (case r of
        JStr s \<Rightarrow> (let rs = str_strip s in if rs \<noteq> [] then [truncate_str rs 100] else [])
      | _ \<Rightarrow> [])"

definition process_chunk :: "ucd \<Rightarrow> (pystr \<times> json) list \<Rightarrow> chunk_state \<Rightarrow> py_error + chunk_state" where
  "process_chunk U data st =
     (case st of (winners_all, reasons_all, agency_votes) \<Rightarrow>
        let winners = get_or data key_winners (JList []);
            reasons = get_or data key_reasons (JList []);
            agency = get_or data key_agency (JStr [])
        in case py_iter winners of
             Inl e \<Rightarrow> Inl e
           | Inr ws \<Rightarrow>
               (case py_iter reasons of
                  Inl e \<Rightarrow> Inl e
                | Inr rs \<Rightarrow>
                    Inr (winners_all @ concat (map (chunk_winner U) ws),
                         reasons_all @ concat (map chunk_reason rs),
                         (if truthy agency then
                            (case norm_company_json U agency of
                               None \<Rightarrow> agency_votes
                             | Some ag \<Rightarrow> counter_inc ag agency_votes)
                          else agency_votes))))"

fun chunk_loop :: "ucd \<Rightarrow> llm \<Rightarrow> nat \<Rightarrow> pystr \<Rightarrow> pystr \<Rightarrow> pystr list \<Rightarrow> chunk_state \<Rightarrow>
    py_error + chunk_state" where
  "chunk_loop U ask k title url [] st = Inr st"
| "chunk_loop U ask k title url (ch # chs) st =
     (case process_chunk U (ask k title url ch) st of
        Inl e \<Rightarrow> Inl e
      | Inr st' \<Rightarrow> chunk_loop U ask (Suc k) title url chs st')"

text \<open>The result of \<open>_call_llm\<close>: the dictionary with \<open>winners\<close>, \<open>reasons\<close> and \<open>agency\<close>.\<close>

record extraction =
  x_winners :: "winner list"
  x_reasons :: "pystr list"
  x_agency :: pystr

text \<open>The part of \<open>_call_llm\<close> after the chunk loop: the fallback when no winner was
  accumulated, the agency with the most votes, and the removal of repeated names.\<close>

definition merge_fallback :: "ucd \<Rightarrow> pystr \<Rightarrow> chunk_state \<Rightarrow> chunk_state" where
  "merge_fallback U body st =
     (case st of (winners_all, reasons_all, agency_votes) \<Rightarrow>
        if winners_all = [] then
          (case fallback_extract U body of (fb_wins, fb_reasons, fb_agency) \<Rightarrow>
             (winners_all @ fb_wins,
              (if reasons_all = [] \<and> fb_reasons \<noteq> [] then reasons_all @ fb_reasons else reasons_all),
              (case fb_agency of
                 None \<Rightarrow> agency_votes
               | Some a \<Rightarrow> if agency_votes = [] \<and> a \<noteq> [] then counter_inc a agency_votes
                           else agency_votes)))
        else st)"

definition finish_page :: "chunk_state \<Rightarrow> extraction" where
  "finish_page st =
     (case st of (winners_all, reasons_all, agency_votes) \<Rightarrow>
        \<lparr>x_winners = dedup_names [] winners_all,
         x_reasons = reasons_all,
         x_agency = (case most_common 1 agency_votes of [] \<Rightarrow> [] | (a, n) # rest \<Rightarrow> a)\<rparr>)"

definition call_llm :: "ucd \<Rightarrow> llm \<Rightarrow> nat \<Rightarrow> pystr \<Rightarrow> pystr \<Rightarrow> pystr \<Rightarrow> py_error + extraction" where
  "call_llm U ask k title url body =
     (case chunk_loop U ask k title url (chunk_text body 9000) ([], [], []) of
        Inl e \<Rightarrow> Inl e
      | Inr st \<Rightarrow> Inr (finish_page (merge_fallback U body st)))"

section \<open>The award snapshot (\<open>build_awards_snapshot_llm\<close>)\<close>

text \<open>A page: the values of \<open>url\<close>, \<open>title\<close> and \<open>text\<close>, the empty string for a missing key.\<close>

record page =
  p_url :: pystr
  p_title :: pystr
  p_text :: pystr

text \<open>
  The payload. The entries of \<open>topWinners\<close> also carry \<open>avgAmount\<close>, the mean of the amounts
  of the name as floats; its value and the \<open>amount_bag\<close> it is computed from are left out
  of the model. What the conversion of the amounts can do to the call is kept: see
  \<open>float_overflows\<close>.
\<close>

record top_winner =
  tw_name :: pystr
  tw_wins :: nat

record top_reason =
  tr_reason :: pystr
  tr_freq :: nat

record top_agency =
  ta_name :: pystr
  ta_freq :: nat

record legacy_winner =
  lw_name :: pystr
  lw_count :: nat

record evidence =
  ev_url :: pystr
  ev_title :: pystr
  ev_snippet :: pystr

record signals =
  topWinners :: "top_winner list"
  topReasons :: "top_reason list"
  agencies :: "top_agency list"

record score_block =
  sc_tech :: json
  sc_price :: json
  sc_total :: json

text \<open>\<open>snap_note\<close> is \<open>None\<close> when the payload has no key \<open>note\<close>.\<close>

record snapshot =
  snap_query :: pystr
  snap_winners :: "legacy_winner list"
  snap_signals :: signals
  snap_evidences :: "evidence list"
  snap_score :: score_block
  snap_note :: "pystr option"

definition no_score :: score_block where
  "no_score = \<lparr>sc_tech = JNull, sc_price = JNull, sc_total = JNull\<rparr>"

definition note_unavailable :: pystr where
  "note_unavailable =
     [0x4C, 0x4C, 0x4D, 0x20, 0x75, 0x6E, 0x61, 0x76, 0x61, 0x69, 0x6C, 0x61, 0x62, 0x6C, 0x65]"

text \<open>The state of the page loop: the number of prompts sent so far, \<open>all_winners\<close>,
  \<open>all_reasons\<close>, \<open>agency_counts\<close> and \<open>evidences\<close>.\<close>

record pages_state =
  ps_calls :: nat
  all_winners :: "winner list"
  all_reasons :: "pystr list"
  agency_counts :: counter
  ps_evidences :: "evidence list"

definition page_step :: "ucd \<Rightarrow> llm \<Rightarrow> pages_state \<Rightarrow> page \<Rightarrow> py_error + pages_state" where
  "page_step U ask st p =
     (let url = str_strip (p_url p);
          title = str_strip (p_title p);
          text = clean_html_ws (p_text p)
      in if text = [] then Inr st
         else case call_llm U ask (ps_calls st) title url text of
                Inl e \<Rightarrow> Inl e
              | Inr data \<Rightarrow>
                  Inr \<lparr>ps_calls = ps_calls st + length (chunk_text text 9000),
                       all_winners = all_winners st @ x_winners data,
                       all_reasons = all_reasons st @ x_reasons data,
                       agency_counts = (if x_agency data \<noteq> [] then counter_inc (x_agency data) (agency_counts st)
                                        else agency_counts st),
                       ps_evidences = ps_evidences st @
                         [\<lparr>ev_url = url, ev_title = title, ev_snippet = truncate_str text 240\<rparr>]\<rparr>)"

fun page_loop :: "ucd \<Rightarrow> llm \<Rightarrow> pages_state \<Rightarrow> page list \<Rightarrow> py_error + pages_state" where
  "page_loop U ask st [] = Inr st"
| "page_loop U ask st (p # ps) =
     (case page_step U ask st p of Inl e \<Rightarrow> Inl e | Inr st' \<Rightarrow> page_loop U ask st' ps)"

text \<open>
  The loop that fills \<open>win_counter\<close> and \<open>amount_bag\<close> converts a numeric amount by
  \<open>float(amt)\<close>, outside any \<open>try\<close>: for an integer beyond the range of a float (from
  \<open>2^1024 - 2^970\<close> on, in absolute value) this raises \<open>OverflowError\<close>. A string amount is
  converted inside \<open>try\<close>, and nothing else is converted.
\<close>

definition float_overflows :: "json \<Rightarrow> bool" where
  "float_overflows v = (case v of JNum n \<Rightarrow> 2 ^ 1024 - 2 ^ 970 \<le> \<bar>n\<bar> | _ \<Rightarrow> False)"

text \<open>The counter of the winner names.\<close>

definition count_names :: "counter \<Rightarrow> winner list \<Rightarrow> counter" where
  "count_names c ws = foldl (\<lambda>c w. if w_name w \<noteq> [] then counter_inc (w_name w) c else c) c ws"

text \<open>
  The global fallback after the page loop: when no winner was counted, the deterministic
  extractor runs once over the joined texts of all pages. The result is the winner
  counter, the reasons and the agency counter that the payload is built from.
\<close>

definition global_fallback :: "ucd \<Rightarrow> page list \<Rightarrow> pages_state \<Rightarrow> counter \<times> pystr list \<times> counter" where
  "global_fallback U pages st =
     (let win_counter = count_names [] (all_winners st) in
      if win_counter = [] then
        (case fallback_extract U
                (str_join [0x0A, 0x0A] (map (\<lambda>p. clean_html_ws (p_text p)) pages)) of
           (fb_wins, fb_reasons, fb_agency) \<Rightarrow>
             (count_names win_counter fb_wins,
              (if all_reasons st = [] \<and> fb_reasons \<noteq> [] then all_reasons st @ fb_reasons
               else all_reasons st),
              (case fb_agency of
                 None \<Rightarrow> agency_counts st
               | Some a \<Rightarrow> if a \<noteq> [] then counter_inc a (agency_counts st)
                           else agency_counts st)))
      else (win_counter, all_reasons st, agency_counts st))"

text \<open>The payload from the counters.\<close>

definition aggregate :: "ucd \<Rightarrow> page list \<Rightarrow> pystr \<Rightarrow> pages_state \<Rightarrow> snapshot" where
  "aggregate U pages query st =
     (case global_fallback U pages st of (win_counter, reasons, agency_cnt) \<Rightarrow>
        let reason_counts =
              foldl (\<lambda>c r. counter_inc r c) []
                (map str_strip (filter (\<lambda>r. r \<noteq> [] \<and> str_strip r \<noteq> []) reasons))
        in \<lparr>snap_query = query,
            snap_winners = map (\<lambda>(nm, c). \<lparr>lw_name = nm, lw_count = c\<rparr>) (most_common 5 win_counter),
            snap_signals =
              \<lparr>topWinners = map (\<lambda>(nm, wins). \<lparr>tw_name = nm, tw_wins = wins\<rparr>) (most_common 8 win_counter),
               topReasons = map (\<lambda>(k, v). \<lparr>tr_reason = k, tr_freq = v\<rparr>) (most_common 8 reason_counts),
               agencies = map (\<lambda>(k, v). \<lparr>ta_name = k, ta_freq = v\<rparr>) (most_common 6 agency_cnt)\<rparr>,
            snap_evidences = take 20 (ps_evidences st),
            snap_score = no_score,
            snap_note = None\<rparr>)"

text \<open>\<open>build_awards_snapshot_llm\<close>; the capability is \<open>None\<close> when \<open>_get_llm\<close> cannot
  construct a client.\<close>

definition build_awards_snapshot_llm :: "ucd \<Rightarrow> llm option \<Rightarrow> page list \<Rightarrow> pystr \<Rightarrow> py_error + snapshot" where
  "build_awards_snapshot_llm U client pages query =
     (case client of
        None \<Rightarrow>
          Inr \<lparr>snap_query = query,
               snap_winners = [],
               snap_signals = \<lparr>topWinners = [], topReasons = [], agencies = []\<rparr>,
               snap_evidences = [],
               snap_score = no_score,
               snap_note = Some note_unavailable\<rparr>
      | Some ask \<Rightarrow>
          (case page_loop U ask
                  \<lparr>ps_calls = 0, all_winners = [], all_reasons = [], agency_counts = [],
                   ps_evidences = []\<rparr> pages of
             Inl e \<Rightarrow> Inl e
           | Inr st \<Rightarrow>
               if list_ex (\<lambda>w. w_name w \<noteq> [] \<and> float_overflows (w_amount w)) (all_winners st)
               then Inl OverflowError
               else Inr (aggregate U pages query st)))"

section \<open>The competitor intelligence (\<open>competitor_intel.py\<close>)\<close>

text \<open>\<open>s.count(k)\<close>: the occurrences of \<open>k\<close> in \<open>s\<close>, from left to right without overlap.\<close>

function str_count :: "pystr \<Rightarrow> pystr \<Rightarrow> nat" where
  "str_count k s =
     (if k = [] then Suc (length s)
      else if s = [] then 0
      else if prefix k s then Suc (str_count k (drop (length k) s))
      else str_count k (tl s))"
  by pat_completeness auto
termination
  by (relation "measure (\<lambda>(k, s). length s)") auto

declare str_count.simps [simp del]

text \<open>The keywords that select a page, and the keywords of the competition signal.\<close>

definition AWARD_KEYS :: "pystr list" where
  "AWARD_KEYS =
     [[0xB099, 0xCC30],
      [0xAC1C, 0xCC30],
      [0xC785, 0xCC30, 0x20, 0xACB0, 0xACFC],
      [0xB099, 0xCC30, 0xC790],
      [0xD611, 0xC0C1, 0xB300, 0xC0C1, 0xC790],
      [0xACC4, 0xC57D, 0x20, 0xCCB4, 0xACB0]]"

definition CCI_KEYS :: "pystr list" where
  "CCI_KEYS =
     [[0xC785, 0xCC30],
      [0xACBD, 0xC7C1],
      [0xC81C, 0xC548, 0xC11C],
      [0xAE30, 0xC220, 0xD3C9, 0xAC00]]"

text \<open>
  The payload. \<open>topCompetitors\<close> (the ranking of the winners by the label patterns, with
  float amounts and parsed dates) is left out of the model; it does not enter the two
  fields below. \<open>cci\<close> is the float \<open>min(1.0, cci_signal / 40.0)\<close>, modelled as the exact
  rational.
\<close>

record intel_evidence =
  ie_url :: pystr
  ie_snippet :: pystr

record market_landscape =
  ml_cci :: rat
  ml_query :: pystr

record competitor_intel =
  marketLandscape :: market_landscape
  ci_evidences :: "intel_evidence list"

text \<open>The page loop, as far as the evidences go: a page without text and a page without
  an award keyword in title plus text are skipped.\<close>

fun intel_loop :: "page list \<Rightarrow> intel_evidence list \<Rightarrow> intel_evidence list" where
  "intel_loop [] evs = evs"
| "intel_loop (p # ps) evs =
     (if p_text p = [] then intel_loop ps evs
      else if \<not> list_ex (\<lambda>k. str_in k (p_title p @ p_text p)) AWARD_KEYS then intel_loop ps evs
      else intel_loop ps
             (evs @ [\<lparr>ie_url = p_url p,
                      ie_snippet = take 260 (str_join [0x20] (str_split_ws (p_text p)))\<rparr>]))"

definition cci_signal :: "page list \<Rightarrow> nat" where
  "cci_signal pages =
     foldl (\<lambda>n k. n + str_count k (str_join [0x20] (map p_text pages))) 0 CCI_KEYS"

definition build_competitor_intel_from_pages :: "page list \<Rightarrow> pystr \<Rightarrow> competitor_intel" where
  "build_competitor_intel_from_pages pages query =
     \<lparr>marketLandscape = \<lparr>ml_cci = min 1 (of_nat (cci_signal pages) / 40), ml_query = query\<rparr>,
      ci_evidences = take 10 (intel_loop pages [])\<rparr>"

section \<open>Auxiliary definitions\<close>

text \<open>The character replacements of \<open>_clean_html_ws\<close>, before the two substitutions.\<close>

definition clean_chars :: "pystr \<Rightarrow> pystr" where
  "clean_chars s0 =
     str_replace [0x0D] [0x0A] (str_replace [0xA0] [0x20] (str_replace amp_nbsp [0x20]
       (str_replace [0xFEFF] [] (str_replace [0x200C] [] (str_replace [0x200B] [] s0)))))"


text \<open>The caps of the payload: at most 8 top winners, 8 top reasons, 6 agencies, 20
  evidences and 5 legacy winners.\<close>

definition caps_ok :: "snapshot \<Rightarrow> bool" where
  "caps_ok s \<longleftrightarrow>
     length (topWinners (snap_signals s)) \<le> 8 \<and> length (topReasons (snap_signals s)) \<le> 8 \<and>
     length (agencies (snap_signals s)) \<le> 6 \<and> length (snap_evidences s) \<le> 20 \<and>
     length (snap_winners s) \<le> 5"

text \<open>The evidence item of a page in the competitor intelligence, and the pages that
  contribute one.\<close>

definition intel_item :: "page \<Rightarrow> intel_evidence" where
  "intel_item p =
     \<lparr>ie_url = p_url p, ie_snippet = take 260 (str_join [0x20] (str_split_ws (p_text p)))\<rparr>"

definition intel_contributes :: "page \<Rightarrow> bool" where
  "intel_contributes p \<longleftrightarrow>
     p_text p \<noteq> [] \<and> list_ex (\<lambda>k. str_in k (p_title p @ p_text p)) AWARD_KEYS"

section \<open>Example inputs\<close>

text \<open>Scenario A of the specification: one page with the text
  \<open>WINNER: Hanbit System (Ju), AWARD AMOUNT: 1,200,000,000 won\<close> (in Korean), 36 characters.\<close>

definition text_a :: pystr where
  "text_a =
     [0xB099, 0xCC30, 0xC790, 0x3A, 0x20, 0xD55C, 0xBE5B, 0xC2DC, 0xC2A4, 0xD15C, 0x20, 0x28,
      0xC8FC, 0x29, 0x2C, 0x20, 0xB099, 0xCC30, 0xAE08, 0xC561, 0x3A, 0x20, 0x31, 0x2C, 0x32,
      0x30, 0x30, 0x2C, 0x30, 0x30, 0x30, 0x2C, 0x30, 0x30, 0x30, 0xC6D0]"

definition page_a :: page where
  "page_a = \<lparr>p_url = [], p_title = [], p_text = text_a\<rparr>"

text \<open>The name the extractor finds on that page (\<open>Hanbit System, award amount\<close>: the company
  class of the pattern runs on over the comma and the next label), and the amount.\<close>

definition name_a :: pystr where
  "name_a = [0xD55C, 0xBE5B, 0xC2DC, 0xC2A4, 0xD15C, 0x2C, 0x20, 0xB099, 0xCC30, 0xAE08, 0xC561]"

definition amount_a :: pystr where
  "amount_a = [0x31, 0x2C, 0x32, 0x30, 0x30, 0x2C, 0x30, 0x30, 0x30, 0x2C, 0x30, 0x30, 0x30, 0xC6D0]"

text \<open>A capability whose every reply parses to the empty dictionary, as after any failed
  call.\<close>

definition ask_nothing :: llm where
  "ask_nothing k title url chunk = []"

text \<open>A name that is a ban-listed label (\<open>evaluation criteria\<close>) with a legal-form marker.\<close>

definition name_banned :: pystr where
  "name_banned = [0xD3C9, 0xAC00, 0xAE30, 0xC900, 0x20, 0x28, 0xC8FC, 0x29]"

text \<open>The candidate the first company pattern captures on the page of scenario A
  (\<open>Hanbit System (Ju), award amount\<close>), and the match that captures it.\<close>

definition cand_a :: pystr where
  "cand_a =
     [0xD55C, 0xBE5B, 0xC2DC, 0xC2A4, 0xD15C, 0x20, 0x28, 0xC8FC, 0x29, 0x2C, 0x20, 0xB099,
      0xCC30, 0xAE08, 0xC561]"

definition match_a :: rmatch where
  "match_a = \<lparr>m_start = 0, m_end = 20, m_caps = [(1, 5, 20)]\<rparr>"

text \<open>The label \<open>WINNER\<close> itself, which the third company pattern captures first, and the
  matches of the third pattern and of the amount pattern on that page.\<close>

definition key_a :: pystr where
  "key_a = [0xB099, 0xCC30, 0xC790]"

definition match_near :: rmatch where
  "match_near = \<lparr>m_start = 0, m_end = 36, m_caps = [(2, 34, 36), (1, 0, 3)]\<rparr>"

definition match_amount :: rmatch where
  "match_amount = \<lparr>m_start = 16, m_end = 36, m_caps = [(1, 22, 36)]\<rparr>"

text \<open>The state before the first page, and a \<open>topWinners\<close> entry from a counter item.\<close>

definition initial_state :: pages_state where
  "initial_state =
     \<lparr>ps_calls = 0, all_winners = [], all_reasons = [], agency_counts = [], ps_evidences = []\<rparr>"

definition top_winner_of :: "pystr \<times> nat \<Rightarrow> top_winner" where
  "top_winner_of item = \<lparr>tw_name = fst item, tw_wins = snd item\<rparr>"

text \<open>Two company names, \<open>Beta Inc\<close> and \<open>Alpha Inc\<close>, and a capability that reports both, in
  this order, as the winners of every chunk.\<close>

definition name_beta :: pystr where
  "name_beta = [0x42, 0x65, 0x74, 0x61, 0x20, 0x49, 0x6E, 0x63]"

definition name_alpha :: pystr where
  "name_alpha = [0x41, 0x6C, 0x70, 0x68, 0x61, 0x20, 0x49, 0x6E, 0x63]"

definition ask_two :: llm where
  "ask_two k title url chunk =
     [(key_winners, JList [JDict [(key_name, JStr name_beta)], JDict [(key_name, JStr name_alpha)]])]"

text \<open>The state of the page loop after the page of scenario A with that capability.\<close>

definition state_two :: pages_state where
  "state_two =
     \<lparr>ps_calls = 1,
      all_winners = [\<lparr>w_name = name_beta, w_amount = JNull\<rparr>, \<lparr>w_name = name_alpha, w_amount = JNull\<rparr>],
      all_reasons = [], agency_counts = [],
      ps_evidences = [\<lparr>ev_url = [], ev_title = [], ev_snippet = text_a\<rparr>]\<rparr>"

text \<open>The payload for that page and capability, with the empty query.\<close>

definition payload_two :: snapshot where
  "payload_two =
     \<lparr>snap_query = [],
      snap_winners = [\<lparr>lw_name = name_beta, lw_count = 1\<rparr>, \<lparr>lw_name = name_alpha, lw_count = 1\<rparr>],
      snap_signals =
        \<lparr>topWinners = [\<lparr>tw_name = name_beta, tw_wins = 1\<rparr>, \<lparr>tw_name = name_alpha, tw_wins = 1\<rparr>],
         topReasons = [], agencies = []\<rparr>,
      snap_evidences = [\<lparr>ev_url = [], ev_title = [], ev_snippet = text_a\<rparr>],
      snap_score = no_score,
      snap_note = None\<rparr>"

text \<open>
  Pages for the competitor intelligence: the page of scenario A; a page with an award
  keyword in the title and no text; a page with the text \<open>abc\<close>; and a page with the text
  \<open>BID RESULT: COMPETITIVE BID\<close> (in Korean: two occurrences of \<open>bid\<close>, one of
  \<open>competition\<close>, and the award keyword \<open>bid result\<close>).
\<close>

definition text_b :: pystr where
  "text_b =
     [0xC785, 0xCC30, 0x20, 0xACB0, 0xACFC, 0x3A, 0x20, 0xACBD, 0xC7C1, 0x20, 0xC785, 0xCC30]"

definition pages_intel :: "page list" where
  "pages_intel =
     [page_a,
      \<lparr>p_url = [], p_title = [0xB099, 0xCC30], p_text = []\<rparr>,
      \<lparr>p_url = [], p_title = [], p_text = [0x61, 0x62, 0x63]\<rparr>,
      \<lparr>p_url = [0x75], p_title = [], p_text = text_b\<rparr>]"

text \<open>A text with runs of blanks and of newlines: \<open>a\<close>, space, tab, space, \<open>b\<close>, four
  newlines, space, \<open>c\<close>, two newlines, tab.\<close>

definition text_ws :: pystr where
  "text_ws = [0x61, 0x20, 0x09, 0x20, 0x62, 0x0A, 0x0A, 0x0A, 0x0A, 0x20, 0x63, 0x0A, 0x0A, 0x09]"

section \<open>Idempotence of the text normalizer\<close>

lemma str_replace_char_del: "str_replace [a] [] s = filter (\<lambda>c. c \<noteq> a) s"
proof (induction s)
  case Nil
  show ?case by (simp add: str_replace.simps)
next
  case (Cons c cs)
  then show ?case by (subst str_replace.simps) simp
qed

lemma str_replace_char_map: "str_replace [a] [b] s = map (\<lambda>c. if c = a then b else c) s"
proof (induction s)
  case Nil
  show ?case by (simp add: str_replace.simps)
next
  case (Cons c cs)
  then show ?case by (subst str_replace.simps) auto
qed

lemma str_replace_absent:
  "old \<noteq> [] \<Longrightarrow> \<not> str_in old s \<Longrightarrow> str_replace old new s = s"
proof (induction s)
  case Nil
  then show ?case by (simp add: str_replace.simps)
next
  case (Cons c cs)
  then show ?case by (subst str_replace.simps) simp
qed

lemma prefix_str_replace:
  "old \<noteq> [] \<Longrightarrow> b \<notin> set p \<Longrightarrow> prefix p (str_replace old [b] s) \<Longrightarrow> prefix p s"
proof (induction s arbitrary: p rule: length_induct)
  case (1 s)
  show ?case
  proof (cases p)
    case Nil
    then show ?thesis by simp
  next
    case (Cons x p')
    show ?thesis
    proof (cases s)
      case Nil
      with 1 Cons show ?thesis by (simp add: str_replace.simps)
    next
      case scons: (Cons c cs)
      show ?thesis
      proof (cases "prefix old s")
        case True
        with 1 scons have "str_replace old [b] s = b # str_replace old [b] (drop (length old) s)"
          by (subst str_replace.simps) simp
        with 1 Cons show ?thesis by simp
      next
        case False
        with 1 scons have eq: "str_replace old [b] s = c # str_replace old [b] cs"
          by (subst str_replace.simps) simp
        with 1 Cons have "x = c" and "prefix p' (str_replace old [b] cs)" by simp_all
        moreover have "b \<notin> set p'" using 1 Cons by simp
        ultimately have "prefix p' cs" using 1 scons by simp
        with \<open>x = c\<close> Cons scons show ?thesis by simp
      qed
    qed
  qed
qed

lemma str_in_str_replace:
  "old \<noteq> [] \<Longrightarrow> b \<notin> set old \<Longrightarrow> \<not> str_in old (str_replace old [b] s)"
proof (induction s rule: length_induct)
  case (1 s)
  show ?case
  proof (cases s)
    case Nil
    with 1 show ?thesis by (simp add: str_replace.simps)
  next
    case (Cons c cs)
    show ?thesis
    proof (cases "prefix old s")
      case True
      with 1 Cons have eq: "str_replace old [b] s = b # str_replace old [b] (drop (length old) s)"
        by (subst str_replace.simps) simp
      have "\<not> prefix old (b # str_replace old [b] (drop (length old) s))"
        using 1 by (cases old) auto
      moreover have "\<not> str_in old (str_replace old [b] (drop (length old) s))"
        using 1 Cons by simp
      ultimately show ?thesis using eq by simp
    next
      case False
      with 1 Cons have eq: "str_replace old [b] s = c # str_replace old [b] cs"
        by (subst str_replace.simps) simp
      have "\<not> prefix old (str_replace old [b] s)"
        using prefix_str_replace [of old b old s] 1 False by blast
      moreover have "\<not> str_in old (str_replace old [b] cs)"
        using 1 Cons by simp
      ultimately show ?thesis using eq by simp
    qed
  qed
qed

lemma prefix_map_fix:
  "(\<And>c. g c \<in> set p \<Longrightarrow> g c = c) \<Longrightarrow> prefix p (map g s) \<Longrightarrow> prefix p s"
proof (induction p arbitrary: s)
  case Nil
  show ?case by simp
next
  case (Cons x p)
  then show ?case by (cases s) auto
qed

lemma str_in_map_fix:
  "p \<noteq> [] \<Longrightarrow> (\<And>c. g c \<in> set p \<Longrightarrow> g c = c) \<Longrightarrow> str_in p (map g s) \<Longrightarrow> str_in p s"
proof (induction s)
  case Nil
  then show ?case by simp
next
  case (Cons c cs)
  from Cons.prems(3) have "prefix p (map g (c # cs)) \<or> str_in p (map g cs)" by simp
  then show ?case
  proof
    assume "prefix p (map g (c # cs))"
    then have "prefix p (c # cs)" using Cons.prems(2) prefix_map_fix by blast
    then show ?thesis by simp
  next
    assume "str_in p (map g cs)"
    then show ?thesis using Cons by simp
  qed
qed

lemma prefix_sub_hspace:
  "0x20 \<notin> set p \<Longrightarrow> prefix p (sub_runs is_hspace False s) \<Longrightarrow> prefix p s"
proof (induction s arbitrary: p)
  case Nil
  then show ?case by simp
next
  case (Cons c cs)
  then show ?case by (cases p) (auto split: if_splits)
qed

lemma str_in_sub_hspace:
  "p \<noteq> [] \<Longrightarrow> 0x20 \<notin> set p \<Longrightarrow> str_in p (sub_runs is_hspace b s) \<Longrightarrow> str_in p s"
proof (induction s arbitrary: b)
  case Nil
  then show ?case by simp
next
  case (Cons c cs)
  show ?case
  proof (cases "is_hspace c")
    case True
    with Cons.prems have "str_in p (sub_runs is_hspace True cs)"
      by (cases p) (auto split: if_splits)
    then show ?thesis using Cons by simp
  next
    case False
    with Cons.prems have "prefix p (sub_runs is_hspace False (c # cs)) \<or> str_in p (sub_runs is_hspace False cs)"
      by simp
    then show ?thesis
    proof
      assume "prefix p (sub_runs is_hspace False (c # cs))"
      then have "prefix p (c # cs)" using Cons.prems(2) prefix_sub_hspace by blast
      then show ?thesis by simp
    next
      assume "str_in p (sub_runs is_hspace False cs)"
      then show ?thesis using Cons by simp
    qed
  qed
qed

lemma prefix_sub_newlines:
  "0x0A \<notin> set p \<Longrightarrow> prefix p (sub_newlines 0 s) \<Longrightarrow> prefix p s"
proof (induction s arbitrary: p)
  case Nil
  then show ?case by simp
next
  case (Cons c cs)
  then show ?case by (cases p) (auto split: if_splits)
qed

lemma str_in_sub_newlines:
  "p \<noteq> [] \<Longrightarrow> 0x0A \<notin> set p \<Longrightarrow> str_in p (sub_newlines k s) \<Longrightarrow> str_in p s"
proof (induction s arbitrary: k)
  case Nil
  then show ?case by simp
next
  case (Cons c cs)
  show ?case
  proof (cases "c = 0x0A")
    case True
    with Cons.prems have "str_in p (sub_newlines k cs) \<or> str_in p (sub_newlines (Suc k) cs)"
      by (cases p) (auto split: if_splits)
    then show ?thesis using Cons by auto
  next
    case False
    with Cons.prems have "prefix p (sub_newlines 0 (c # cs)) \<or> str_in p (sub_newlines 0 cs)"
      by simp
    then show ?thesis
    proof
      assume "prefix p (sub_newlines 0 (c # cs))"
      then have "prefix p (c # cs)" using Cons.prems(2) prefix_sub_newlines by blast
      then show ?thesis by simp
    next
      assume "str_in p (sub_newlines 0 cs)"
      then show ?thesis using Cons by simp
    qed
  qed
qed

lemma set_sub_hspace: "set (sub_runs is_hspace b s) \<subseteq> insert 0x20 (set s)"
  by (induction s arbitrary: b) auto

lemma set_sub_newlines: "set (sub_newlines k s) \<subseteq> set s"
  by (induction s arbitrary: k) auto

lemma sub_hspace_idem:
  "sub_runs is_hspace False (sub_runs is_hspace b s) = sub_runs is_hspace b s \<and>
   sub_runs is_hspace True (sub_runs is_hspace True s) = sub_runs is_hspace True s"
  by (induction s arbitrary: b) (auto simp: is_hspace_def)

lemma sub_newlines_idem: "sub_newlines k (sub_newlines k s) = sub_newlines k s"
  by (induction s arbitrary: k) auto

lemma sub_hspace_newlines_commute:
  "(b \<longrightarrow> k = 0) \<Longrightarrow> sub_runs is_hspace b (sub_newlines k s) = sub_newlines k (sub_runs is_hspace b s)"
  by (induction s arbitrary: b k) (auto simp: is_hspace_def)

lemma clean_html_ws_alt: "clean_html_ws s = sub_newlines 0 (sub_runs is_hspace False (clean_chars s))"
  by (simp add: clean_html_ws_def clean_chars_def)

lemma set_str_replace: "old \<noteq> [] \<Longrightarrow> set (str_replace old new s) \<subseteq> set s \<union> set new"
proof (induction s rule: length_induct)
  case (1 s)
  show ?case
  proof (cases s)
    case Nil
    with 1 show ?thesis by (simp add: str_replace.simps)
  next
    case (Cons c cs)
    show ?thesis
    proof (cases "prefix old s")
      case True
      have eq: "str_replace old new s = new @ str_replace old new (drop (length old) s)"
        using True 1 Cons by (subst str_replace.simps) simp
      have "set (str_replace old new (drop (length old) s)) \<subseteq> set (drop (length old) s) \<union> set new"
        using 1 Cons by simp
      moreover have "set (drop (length old) s) \<subseteq> set s" by (rule set_drop_subset)
      ultimately show ?thesis unfolding eq by auto
    next
      case False
      have eq: "str_replace old new s = c # str_replace old new cs"
        using False 1 Cons by (subst str_replace.simps) simp
      have "set (str_replace old new cs) \<subseteq> set cs \<union> set new"
        using 1 Cons by simp
      then show ?thesis unfolding eq using Cons by auto
    qed
  qed
qed

lemma clean_chars_fix:
  assumes "0x200B \<notin> set s" "0x200C \<notin> set s" "0xFEFF \<notin> set s" "0xA0 \<notin> set s" "0x0D \<notin> set s"
    and "\<not> str_in amp_nbsp s"
  shows "clean_chars s = s"
proof -
  have a: "str_replace [0x200B] [] s = s" "str_replace [0x200C] [] s = s" "str_replace [0xFEFF] [] s = s"
    using assms by (auto simp: str_replace_char_del filter_id_conv)
  have b: "str_replace amp_nbsp [0x20] s = s"
    using assms by (simp add: str_replace_absent amp_nbsp_def)
  have c: "str_replace [0xA0] [0x20] s = s" "str_replace [0x0D] [0x0A] s = s"
    using assms by (auto simp: str_replace_char_map intro!: map_idI)
  show ?thesis by (simp add: clean_chars_def a b c)
qed

lemma set_clean_chars:
  "0x200B \<notin> set (clean_chars s)" "0x200C \<notin> set (clean_chars s)" "0xFEFF \<notin> set (clean_chars s)"
  "0xA0 \<notin> set (clean_chars s)" "0x0D \<notin> set (clean_chars s)"
proof -
  let ?a = "filter (\<lambda>c. c \<noteq> 0xFEFF) (filter (\<lambda>c. c \<noteq> 0x200C) (filter (\<lambda>c. c \<noteq> 0x200B) s))"
  let ?b = "str_replace amp_nbsp [0x20] ?a"
  have cc: "clean_chars s = map (\<lambda>c. if c = 0x0D then 0x0A else c) (map (\<lambda>c. if c = 0xA0 then 0x20 else c) ?b)"
    by (simp add: clean_chars_def str_replace_char_del str_replace_char_map)
  have sb: "set ?b \<subseteq> set ?a \<union> {0x20}"
    using set_str_replace [of amp_nbsp "[0x20]" ?a] by (simp add: amp_nbsp_def)
  show "0x200B \<notin> set (clean_chars s)" using sb by (auto simp: cc)
  show "0x200C \<notin> set (clean_chars s)" using sb by (auto simp: cc)
  show "0xFEFF \<notin> set (clean_chars s)" using sb by (auto simp: cc)
  show "0xA0 \<notin> set (clean_chars s)" by (auto simp: cc)
  show "0x0D \<notin> set (clean_chars s)" by (auto simp: cc)
qed

lemma amp_clean_chars: "\<not> str_in amp_nbsp (clean_chars s)"
proof -
  let ?a = "str_replace [0xFEFF] [] (str_replace [0x200C] [] (str_replace [0x200B] [] s))"
  let ?b = "str_replace amp_nbsp [0x20] ?a"
  have 1: "\<not> str_in amp_nbsp ?b"
    by (rule str_in_str_replace) (simp_all add: amp_nbsp_def)
  have ne: "amp_nbsp \<noteq> []" by (simp add: amp_nbsp_def)
  have g1: "\<And>c::nat. (if c = 0xA0 then 0x20 else c) \<in> set amp_nbsp \<Longrightarrow> (if c = 0xA0 then 0x20 else c) = c"
    by (auto simp: amp_nbsp_def split: if_splits)
  have g2: "\<And>c::nat. (if c = 0x0D then 0x0A else c) \<in> set amp_nbsp \<Longrightarrow> (if c = 0x0D then 0x0A else c) = c"
    by (auto simp: amp_nbsp_def split: if_splits)
  have 2: "\<not> str_in amp_nbsp (map (\<lambda>c. if c = 0xA0 then 0x20 else c) ?b)"
    using str_in_map_fix [OF ne g1] 1 by blast
  have 3: "\<not> str_in amp_nbsp (map (\<lambda>c. if c = 0x0D then 0x0A else c) (map (\<lambda>c. if c = 0xA0 then 0x20 else c) ?b))"
    using str_in_map_fix [OF ne g2] 2 by blast
  show ?thesis using 3 by (simp add: clean_chars_def str_replace_char_map)
qed

lemma clean_html_ws_fix_chars: "clean_chars (clean_html_ws s) = clean_html_ws s"
proof (rule clean_chars_fix)
  let ?h = "sub_runs is_hspace False (clean_chars s)"
  have sub: "set (clean_html_ws s) \<subseteq> insert 0x20 (set (clean_chars s))"
    using set_sub_newlines [of 0 ?h] set_sub_hspace [of False "clean_chars s"]
    by (auto simp: clean_html_ws_alt)
  show "0x200B \<notin> set (clean_html_ws s)" using sub set_clean_chars(1) [of s] by auto
  show "0x200C \<notin> set (clean_html_ws s)" using sub set_clean_chars(2) [of s] by auto
  show "0xFEFF \<notin> set (clean_html_ws s)" using sub set_clean_chars(3) [of s] by auto
  show "0xA0 \<notin> set (clean_html_ws s)" using sub set_clean_chars(4) [of s] by auto
  show "0x0D \<notin> set (clean_html_ws s)" using sub set_clean_chars(5) [of s] by auto
  show "\<not> str_in amp_nbsp (clean_html_ws s)"
  proof
    assume "str_in amp_nbsp (clean_html_ws s)"
    then have "str_in amp_nbsp ?h"
      using str_in_sub_newlines [of amp_nbsp 0 ?h] by (simp add: clean_html_ws_alt amp_nbsp_def)
    then have "str_in amp_nbsp (clean_chars s)"
      using str_in_sub_hspace [of amp_nbsp False "clean_chars s"] by (simp add: amp_nbsp_def)
    then show False using amp_clean_chars by blast
  qed
qed

lemma clean_html_ws_idem: "clean_html_ws (clean_html_ws s) = clean_html_ws s"
proof -
  let ?c = "clean_chars s"
  have "clean_html_ws (clean_html_ws s) = sub_newlines 0 (sub_runs is_hspace False (clean_html_ws s))"
    by (simp add: clean_html_ws_alt [of "clean_html_ws s"] clean_html_ws_fix_chars)
  also have "\<dots> = sub_newlines 0 (sub_runs is_hspace False (sub_newlines 0 (sub_runs is_hspace False ?c)))"
    by (simp add: clean_html_ws_alt)
  also have "\<dots> = sub_newlines 0 (sub_newlines 0 (sub_runs is_hspace False (sub_runs is_hspace False ?c)))"
    by (simp add: sub_hspace_newlines_commute)
  also have "\<dots> = sub_newlines 0 (sub_runs is_hspace False ?c)"
    by (simp add: sub_newlines_idem sub_hspace_idem)
  finally show ?thesis by (simp add: clean_html_ws_alt)
qed


section \<open>Evaluation of the examples\<close>

text \<open>The equations that evaluate the character classes, the matcher, the patterns and
  the string operations on a concrete text.\<close>

lemmas cls_eval = py_isspace_def cls_sep_def cls_prefix_def cls_company_def cls_amount_def cls_any_def
  is_hangul_def is_ascii_letter_def is_ascii_digit_def is_hspace_def

lemmas rx_eval = finditer_def finditer_from.simps match_at_def re_search_def re_sub_def
  m_groups_def m_group_def slice_def first_group_def

lemmas pat_eval = COMPANY_REGEX_A_def COMPANY_REGEX_B_def COMPANY_NEAR_WINNER_def AMOUNT_REGEX_def
  AGENCY_REGEX_def KOR_COMPANY_PAT_def LABEL_SEP_def COMPANY_CLEAN_PAT_def
  WINNER_KEYS_def LABEL_KEYS_def AMOUNT_KEYS_def AMOUNT_UNITS_def AGENCY_KEYS_def CORP_MARKERS_def

lemmas str_eval = clean_html_ws_def str_replace.simps amp_nbsp_def str_strip_def strip_by_def
  str_strip_chars_def STRIP_CHARS_def

text \<open>On an example, the two substitutions of the normalizer, written as recursions over the
  text, give what the matcher gives for the patterns \<^verbatim>\<open>[ \t]+\<close> and \<^verbatim>\<open>\n{3,}\<close>.\<close>

lemma sub_runs_matcher:
  "re_sub (Rep is_hspace 1 None) [0x20] text_ws = sub_runs is_hspace False text_ws"
  by (simp add: text_ws_def rx_eval is_hspace_def)

lemma sub_newlines_matcher:
  "re_sub (Rep (\<lambda>c. c = 0x0A) 3 None) [0x0A, 0x0A] text_ws = sub_newlines 0 text_ws"
  by (simp add: text_ws_def rx_eval)

lemma norm_candidate_banned: "norm_candidate name_banned = [0xD3C9, 0xAC00, 0xAE30, 0xC900]"
  by (simp add: norm_candidate_def name_banned_def str_eval rx_eval pat_eval cls_eval)

text \<open>Scenario A, step by step through the deterministic extractor.\<close>


lemma clean_a: "clean_html_ws text_a = text_a"
  by (simp add: text_a_def clean_html_ws_def str_replace.simps amp_nbsp_def is_hspace_def)

lemma finditer_a: "finditer COMPANY_REGEX_A text_a = [match_a]"
  by (simp add: text_a_def match_a_def rx_eval pat_eval cls_eval)

lemma finditer_b: "finditer COMPANY_REGEX_B text_a = []"
  by (simp add: text_a_def rx_eval pat_eval cls_eval)

lemma finditer_near:
  "finditer COMPANY_NEAR_WINNER text_a = [\<lparr>m_start = 0, m_end = 36, m_caps = [(2, 34, 36), (1, 0, 3)]\<rparr>]"
  by (simp add: text_a_def rx_eval pat_eval cls_eval)

lemma finditer_amount:
  "finditer AMOUNT_REGEX text_a = [\<lparr>m_start = 16, m_end = 36, m_caps = [(1, 22, 36)]\<rparr>]"
  by (simp add: text_a_def rx_eval pat_eval cls_eval)

lemma search_agency: "re_search AGENCY_REGEX text_a = None"
  by (simp add: text_a_def rx_eval pat_eval cls_eval)

lemma group_a: "first_group (m_groups text_a match_a 1) = Some cand_a"
  by (simp add: text_a_def match_a_def cand_a_def rx_eval)

lemma norm_candidate_a: "norm_candidate cand_a = name_a"
  by (simp add: norm_candidate_def cand_a_def name_a_def str_eval rx_eval pat_eval cls_eval)

lemma norm_company_a: "norm_company ucd_basic cand_a = Some name_a"
proof -
  have 1: "cand_a \<noteq> []" by (simp add: cand_a_def)
  have 2: "\<not> list_ex (\<lambda>k. str_in k name_a) BAN_TOKENS"
    by (simp add: name_a_def BAN_TOKENS_def)
  have 3: "list_ex (\<lambda>c. is_hangul c \<or> is_ascii_letter c) name_a"
    by (simp add: name_a_def is_hangul_def)
  have 4: "str_in [0x20] name_a" by (simp add: name_a_def)
  have 5: "count_letters ucd_basic name_a = 9"
    by (simp add: count_letters_def name_a_def ucd_basic_def is_hangul_def is_ascii_letter_def is_ascii_digit_def)
  have 6: "length name_a = 11" by (simp add: name_a_def)
  have 7: "name_a \<noteq> []" by (simp add: name_a_def)
  show ?thesis
    by (simp add: norm_company_def Let_def norm_candidate_a 1 2 3 4 5 6 7)
qed

lemma hint_a: "has_company_hint cand_a"
  by (simp add: has_company_hint_def cand_a_def COMPANY_HINTS_def)

lemma score_a: "company_score ucd_basic cand_a text_a (0, 20) = 4"
proof -
  have 1: "str_in [0x20] name_a" by (simp add: name_a_def)
  have 2: "str_in cand_a (slice text_a 0 (min (length text_a) 60))"
    by (simp add: slice_def text_a_def cand_a_def)
  have 3: "name_a \<noteq> []" by (simp add: name_a_def)
  show ?thesis
    by (simp add: company_score_def Let_def norm_company_a hint_a 1 2 3)
qed


lemma finditer_near': "finditer COMPANY_NEAR_WINNER text_a = [match_near]"
  by (simp add: finditer_near match_near_def)

lemma finditer_amount': "finditer AMOUNT_REGEX text_a = [match_amount]"
  by (simp add: finditer_amount match_amount_def)

lemma group_a': "first_group (m_groups text_a match_a (Suc 0)) = Some cand_a"
  using group_a by simp

lemma group_near: "first_group (m_groups text_a match_near 4) = Some key_a"
  by (simp add: text_a_def match_near_def key_a_def rx_eval upt_rec)

lemma norm_candidate_key: "norm_candidate key_a = key_a"
  by (simp add: norm_candidate_def key_a_def str_eval rx_eval pat_eval cls_eval)

lemma norm_company_key: "norm_company ucd_basic key_a = Some key_a"
proof -
  have 1: "key_a \<noteq> []" by (simp add: key_a_def)
  have 2: "\<not> list_ex (\<lambda>k. str_in k key_a) BAN_TOKENS"
    by (simp add: key_a_def BAN_TOKENS_def)
  have 3: "list_ex (\<lambda>c. is_hangul c \<or> is_ascii_letter c) key_a"
    by (simp add: key_a_def is_hangul_def)
  have 4: "\<not> str_in [0x20] key_a" by (simp add: key_a_def)
  have 5: "count_letters ucd_basic key_a = 3"
    by (simp add: count_letters_def key_a_def ucd_basic_def is_hangul_def is_ascii_letter_def is_ascii_digit_def)
  have 6: "length key_a = 3" by (simp add: key_a_def)
  show ?thesis
    by (simp add: norm_company_def Let_def norm_candidate_key 1 2 3 4 5 6)
qed

lemma hint_key: "\<not> has_company_hint key_a"
  by (simp add: has_company_hint_def key_a_def COMPANY_HINTS_def)

lemma score_key: "company_score ucd_basic key_a text_a (0, 36) = 1"
proof -
  have 1: "\<not> str_in [0x20] key_a" by (simp add: key_a_def)
  have 2: "str_in key_a (slice text_a 0 (min (length text_a) 76))"
    by (simp add: slice_def text_a_def key_a_def)
  have 3: "key_a \<noteq> []" by (simp add: key_a_def)
  have 4: "\<not> prefix [0x28, 0xC8FC, 0x29] key_a" "\<not> prefix [0x321C] key_a" "\<not> prefix [0x28, 0xC720, 0x29] key_a"
    "length key_a = 3"
    by (simp_all add: key_a_def)
  show ?thesis
    by (simp add: company_score_def Let_def norm_company_key hint_key 1 2 3 4)
qed

lemma candidate_a:
  "candidate_of ucd_basic text_a (Suc 0) match_a =
     [\<lparr>c_name = name_a, c_amount = None, c_score = 4, c_pos = (0, 20)\<rparr>]"
proof -
  have sp: "m_start match_a = 0" "m_end match_a = 20" by (simp_all add: match_a_def)
  show ?thesis
    by (simp add: candidate_of_def group_a' sp score_a norm_company_a Let_def)
qed

lemma candidate_near: "candidate_of ucd_basic text_a 4 match_near = []"
proof -
  have sp: "m_start match_near = 0" "m_end match_near = 36" by (simp_all add: match_near_def)
  show ?thesis
    by (simp add: candidate_of_def group_near sp score_key Let_def)
qed

lemma winners_raw_a:
  "winners_raw ucd_basic text_a = [\<lparr>c_name = name_a, c_amount = None, c_score = 4, c_pos = (0, 20)\<rparr>]"
  by (simp add: winners_raw_def COMPANY_PATTERNS_def finditer_a finditer_b finditer_near'
      candidate_a candidate_near)

lemma number_like_a: "is_number_like ucd_basic amount_a"
  by (simp add: is_number_like_def amount_a_def ucd_basic_def is_ascii_digit_def)

lemma amount_group:
  "str_strip (case m_group text_a match_amount (Suc 0) of None \<Rightarrow> [] | Some g \<Rightarrow> g) = amount_a"
  by (simp add: text_a_def match_amount_def amount_a_def rx_eval str_strip_def strip_by_def py_isspace_def)

lemma assign_amounts_a:
  "assign_amounts ucd_basic text_a (winners_raw ucd_basic text_a) =
     [\<lparr>c_name = name_a, c_amount = Some amount_a, c_score = 4, c_pos = (0, 20)\<rparr>]"
proof -
  have sp: "m_start match_amount = 16" by (simp add: match_amount_def)
  show ?thesis
    by (simp add: assign_amounts_def winners_raw_a finditer_amount' assign_amount_def
        amount_group number_like_a sp Let_def)
qed

lemma find_agency_a: "find_agency ucd_basic text_a = None"
  by (simp add: find_agency_def search_agency)

lemma split_a: "split_on (\<lambda>c. c = 0x0A \<or> c = 0x2E) text_a = [text_a]"
  by (simp add: split_on_def text_a_def)

lemma strip_a: "str_strip text_a = text_a"
  by (simp add: str_strip_def strip_by_def text_a_def py_isspace_def)

lemma truncate_a: "truncate_str text_a 100 = text_a"
  by (simp add: truncate_str_def clean_a Let_def) (simp add: text_a_def str_split_ws_def py_isspace_def)

lemma reason_key_a: "list_ex (\<lambda>k. str_in k text_a) REASON_KEYS"
  by (simp add: text_a_def REASON_KEYS_def)

lemma find_reasons_a: "find_reasons text_a = [text_a]"
proof -
  have "text_a \<noteq> []" by (simp add: text_a_def)
  then show ?thesis
    by (simp add: find_reasons_def split_a add_reason_def strip_a truncate_a reason_key_a Let_def)
qed

lemma fallback_a:
  "fallback_extract ucd_basic text_a =
     ([\<lparr>w_name = name_a, w_amount = JStr amount_a\<rparr>], [text_a], None)"
proof -
  have 1: "text_a \<noteq> []" by (simp add: text_a_def)
  have 2: "name_a \<noteq> []" by (simp add: name_a_def)
  show ?thesis
    by (simp add: fallback_extract_def clean_a assign_amounts_a find_agency_a find_reasons_a
        candidate_winner_def Let_def 1 2)
qed


text \<open>Scenario A through the page loop, with a capability that reports nothing.\<close>


lemma most_common_single: "most_common (Suc 0) [(a, n)] = [(a, n)]"
  by (simp add: most_common_def)

lemma chunk_a: "chunk_text text_a 9000 = [text_a]"
proof -
  have "length text_a \<le> 9000" by (simp add: text_a_def)
  then show ?thesis by (simp add: chunk_text_def clean_a Let_def)
qed

lemma process_nothing: "process_chunk U [] st = Inr st"
  by (cases st) (simp add: process_chunk_def get_or_def Let_def)

lemma loop_nothing: "chunk_loop U ask_nothing k title url chunks st = Inr st"
  by (induction chunks arbitrary: k st) (simp_all add: ask_nothing_def process_nothing)

lemma truncate_a240: "truncate_str text_a 240 = text_a"
  by (simp add: truncate_str_def clean_a Let_def) (simp add: text_a_def str_split_ws_def py_isspace_def)

lemma call_a:
  "call_llm ucd_basic ask_nothing 0 [] [] text_a =
     Inr \<lparr>x_winners = [\<lparr>w_name = name_a, w_amount = JStr amount_a\<rparr>], x_reasons = [text_a],
          x_agency = []\<rparr>"
proof -
  have 1: "text_a \<noteq> []" by (simp add: text_a_def)
  have 2: "name_a \<noteq> []" by (simp add: name_a_def)
  show ?thesis
    by (simp add: call_llm_def loop_nothing merge_fallback_def fallback_a finish_page_def
        most_common_def 1 2)
qed

lemma page_step_a:
  "page_step ucd_basic ask_nothing
     \<lparr>ps_calls = 0, all_winners = [], all_reasons = [], agency_counts = [], ps_evidences = []\<rparr> page_a =
   Inr \<lparr>ps_calls = 1, all_winners = [\<lparr>w_name = name_a, w_amount = JStr amount_a\<rparr>],
        all_reasons = [text_a], agency_counts = [],
        ps_evidences = [\<lparr>ev_url = [], ev_title = [], ev_snippet = text_a\<rparr>]\<rparr>"
proof -
  have 1: "text_a \<noteq> []" by (simp add: text_a_def)
  have 2: "str_strip [] = []" by (simp add: str_strip_def strip_by_def)
  show ?thesis
    by (simp add: page_step_def page_a_def clean_a call_a chunk_a truncate_a240 Let_def 1 2)
qed

lemma snapshot_a:
  "build_awards_snapshot_llm ucd_basic (Some ask_nothing) [page_a] query =
     Inr \<lparr>snap_query = query,
          snap_winners = [\<lparr>lw_name = name_a, lw_count = 1\<rparr>],
          snap_signals =
            \<lparr>topWinners = [\<lparr>tw_name = name_a, tw_wins = 1\<rparr>],
             topReasons = [\<lparr>tr_reason = text_a, tr_freq = 1\<rparr>],
             agencies = []\<rparr>,
          snap_evidences = [\<lparr>ev_url = [], ev_title = [], ev_snippet = text_a\<rparr>],
          snap_score = no_score,
          snap_note = None\<rparr>"
proof -
  have 1: "text_a \<noteq> []" by (simp add: text_a_def)
  have 2: "name_a \<noteq> []" by (simp add: name_a_def)
  show ?thesis
    by (simp add: build_awards_snapshot_llm_def page_step_a aggregate_def global_fallback_def
        count_names_def most_common_def strip_a float_overflows_def Let_def 1 2)
qed


section \<open>Caps and the competitor intelligence\<close>

lemma length_most_common: "length (most_common n c) \<le> n"
  by (simp add: most_common_def)

lemma caps_aggregate: "caps_ok (aggregate U pages query st)"
  by (simp add: caps_ok_def aggregate_def Let_def length_most_common split: prod.split)

lemma intel_loop_eq:
  "intel_loop pages evs = evs @ map intel_item (filter intel_contributes pages)"
  by (induction pages arbitrary: evs) (auto simp: intel_item_def intel_contributes_def)

lemma foldl_add_sum_list: "foldl (\<lambda>n k. n + f k) (a::nat) ks = a + sum_list (map f ks)"
  by (induction ks arbitrary: a) simp_all

lemma cci_signal_sum:
  "cci_signal pages = sum_list (map (\<lambda>k. str_count k (str_join [0x20] (map p_text pages))) CCI_KEYS)"
  by (simp add: cci_signal_def foldl_add_sum_list)

lemma intel_item_snippet: "length (ie_snippet (intel_item p)) \<le> 260"
  by (simp add: intel_item_def)

lemma intel_snippets_short:
  "list_all (\<lambda>e. length (ie_snippet e) \<le> 260) (take n (map intel_item ps))"
proof -
  have "length (ie_snippet e) \<le> 260" if "e \<in> set (take n (map intel_item ps))" for e
  proof -
    from that have "e \<in> set (map intel_item ps)" by (rule in_set_takeD)
    then obtain p where "e = intel_item p" by auto
    then show ?thesis by (simp add: intel_item_snippet)
  qed
  then show ?thesis by (simp add: list_all_iff)
qed

text \<open>The example pages of the competitor intelligence.\<close>


lemma cci_counts:
  "map (\<lambda>k. str_count k (str_join [0x20] (map p_text pages_intel))) CCI_KEYS = [2, 1, 0, 0]"
  by (simp add: pages_intel_def page_a_def text_a_def text_b_def CCI_KEYS_def str_count.simps)

lemma split_join_a: "str_join [0x20] (str_split_ws text_a) = text_a"
  by (simp add: text_a_def str_split_ws_def py_isspace_def)

lemma split_join_b: "str_join [0x20] (str_split_ws text_b) = text_b"
  by (simp add: text_b_def str_split_ws_def py_isspace_def)

lemma contributes_intel:
  "filter intel_contributes pages_intel = [page_a, \<lparr>p_url = [0x75], p_title = [], p_text = text_b\<rparr>]"
proof -
  have a: "intel_contributes page_a"
    by (simp add: intel_contributes_def page_a_def text_a_def AWARD_KEYS_def)
  have b: "intel_contributes \<lparr>p_url = [0x75], p_title = [], p_text = text_b\<rparr>"
    by (simp add: intel_contributes_def text_b_def AWARD_KEYS_def)
  have c: "\<not> intel_contributes \<lparr>p_url = [], p_title = [0xB099, 0xCC30], p_text = []\<rparr>"
    by (simp add: intel_contributes_def)
  have d: "\<not> intel_contributes \<lparr>p_url = [], p_title = [], p_text = [0x61, 0x62, 0x63]\<rparr>"
    by (simp add: intel_contributes_def AWARD_KEYS_def)
  show ?thesis by (simp add: pages_intel_def a b c d)
qed

lemma items_intel:
  "take 10 (map intel_item (filter intel_contributes pages_intel)) =
     [\<lparr>ie_url = [], ie_snippet = text_a\<rparr>, \<lparr>ie_url = [0x75], ie_snippet = text_b\<rparr>]"
proof -
  have "length text_a \<le> 260" "length text_b \<le> 260" by (simp_all add: text_a_def text_b_def)
  then show ?thesis
    by (simp add: contributes_intel intel_item_def page_a_def split_join_a split_join_b)
qed


section \<open>The deterministic extractor and the fallback\<close>


lemma norm_company_nonempty: "norm_company U x = Some n \<Longrightarrow> n \<noteq> []"
  by (auto simp: norm_company_def Let_def split: if_splits)

lemma company_score_norm:
  "2 \<le> company_score U cand ctx sp \<Longrightarrow> \<exists>nm. norm_company U cand = Some nm"
  by (cases "norm_company U cand") (auto simp: company_score_def Let_def)

lemma candidate_ofD:
  assumes "c \<in> set (candidate_of U text n m)"
  shows "\<exists>cand. first_group (m_groups text m n) = Some cand \<and>
        2 \<le> company_score U cand text (m_start m, m_end m) \<and>
        norm_company U cand = Some (c_name c)"
proof (cases "first_group (m_groups text m n)")
  case None
  with assms show ?thesis by (simp add: candidate_of_def)
next
  case (Some cand)
  show ?thesis
  proof (cases "norm_company U cand")
    case None
    with assms Some show ?thesis by (simp add: candidate_of_def Let_def split: if_splits)
  next
    case (Some nm)
    with assms \<open>first_group (m_groups text m n) = Some cand\<close> show ?thesis
      by (auto simp: candidate_of_def Let_def split: if_splits)
  qed
qed

lemma winners_raw_iff:
  "c \<in> set (winners_raw U text) \<longleftrightarrow>
     (\<exists>r n m. (r, n) \<in> set COMPANY_PATTERNS \<and> m \<in> set (finditer r text) \<and>
        c \<in> set (candidate_of U text n m))"
  by (auto simp: winners_raw_def)

lemma assign_amount_names: "map c_name (assign_amount U text ws m) = map c_name ws"
proof -
  have "map c_name (ws[i := (ws ! i)\<lparr>c_amount := a\<rparr>]) = map c_name ws" for i a
    by (cases "i < length ws") (simp_all add: map_update list_update_same_conv list_update_beyond)
  then show ?thesis
    by (simp add: assign_amount_def Let_def split: option.split)
qed

lemma foldl_assign_amount_names:
  "map c_name (foldl (assign_amount U text) ws ms) = map c_name ws"
  by (induction ms arbitrary: ws) (simp_all add: assign_amount_names)

lemma assign_amounts_names: "map c_name (assign_amounts U text ws) = map c_name ws"
  by (simp add: assign_amounts_def foldl_assign_amount_names)

lemma set_dedup_names: "set (dedup_names seen ws) \<subseteq> set ws"
  by (induction ws arbitrary: seen) auto

lemma dedup_names_nonempty:
  "ws \<noteq> [] \<Longrightarrow> w_name (hd ws) \<noteq> [] \<Longrightarrow> dedup_names [] ws \<noteq> []"
  by (cases ws) auto

lemma hd_dedup_names:
  "ws \<noteq> [] \<Longrightarrow> w_name (hd ws) \<noteq> [] \<Longrightarrow> hd (dedup_names [] ws) = hd ws"
  by (cases ws) auto

lemma w_name_candidate_winner: "w_name (candidate_winner c) = c_name c"
  by (simp add: candidate_winner_def)

text \<open>The names of the winners of the deterministic extractor are names of raw candidates.\<close>

lemma fallback_winner_raw:
  assumes "w \<in> set (fst (fallback_extract U text))"
  shows "clean_html_ws text \<noteq> [] \<and> w_name w \<in> c_name ` set (winners_raw U (clean_html_ws text))"
proof -
  let ?t = "clean_html_ws text"
  let ?raw = "assign_amounts U ?t (winners_raw U ?t)"
  let ?sorted = "sort_key (\<lambda>w. (- c_score w, c_name w)) ?raw"
  have ne: "?t \<noteq> []" using assms by (auto simp: fallback_extract_def Let_def split: if_splits)
  then have "w \<in> set (take 10 (dedup_names [] (map candidate_winner ?sorted)))"
    using assms by (simp add: fallback_extract_def Let_def)
  then have "w \<in> set (dedup_names [] (map candidate_winner ?sorted))"
    by (rule in_set_takeD)
  then have "w \<in> set (map candidate_winner ?sorted)"
    using set_dedup_names by blast
  then obtain c where c: "c \<in> set ?raw" "w = candidate_winner c" by auto
  then have "c_name c \<in> set (map c_name ?raw)" by simp
  then have "c_name c \<in> set (map c_name (winners_raw U ?t))"
    by (simp only: assign_amounts_names)
  then show ?thesis using ne c by (auto simp: w_name_candidate_winner)
qed



text \<open>A match with a score of at least 2 gives the deterministic extractor a winner.\<close>

lemma slice_Nil: "slice [] a b = []"
  by (simp add: slice_def)

lemma m_group_Nil: "m_group [] m g = Some cand \<Longrightarrow> cand = []"
  by (cases "map_of (m_caps m) g") (auto simp: m_group_def slice_Nil)

lemma m_groups_Nil:
  assumes "Some cand \<in> set (m_groups [] m n)"
  shows "cand = []"
proof -
  from assms obtain g where "m_group [] m g = Some cand"
    unfolding m_groups_def by auto
  then show ?thesis by (rule m_group_Nil)
qed

lemma sort_key_Nil_iff: "sort_key f xs = [] \<longleftrightarrow> xs = []"
proof (cases xs)
  case Nil
  then show ?thesis by simp
next
  case (Cons a ys)
  then have "a \<in> set xs" by simp
  then have "a \<in> set (sort_key f xs)" by (simp only: set_sort)
  then have "sort_key f xs \<noteq> []" by (cases "sort_key f xs") simp_all
  with Cons show ?thesis by simp
qed

lemma find_SomeD: "List.find P xs = Some x \<Longrightarrow> P x \<and> x \<in> set xs"
  by (induction xs) (auto split: if_splits)

lemma first_group_nonempty:
  assumes "first_group gs = Some cand"
  shows "cand \<noteq> [] \<and> Some cand \<in> set gs"
proof -
  from assms have "List.find (\<lambda>g. g \<noteq> None \<and> g \<noteq> Some []) gs = Some (Some cand)"
    by (simp add: first_group_def split: option.splits)
  from find_SomeD [OF this] show ?thesis by simp
qed

lemma fallback_fires:
  assumes "(r, n) \<in> set COMPANY_PATTERNS"
    and "m \<in> set (finditer r (clean_html_ws text))"
    and "first_group (m_groups (clean_html_ws text) m n) = Some cand"
    and "2 \<le> company_score U cand (clean_html_ws text) (m_start m, m_end m)"
  shows "fst (fallback_extract U text) \<noteq> [] \<and> w_name (hd (fst (fallback_extract U text))) \<noteq> []"
proof -
  let ?t = "clean_html_ws text"
  let ?cands = "winners_raw U ?t"
  let ?raw = "assign_amounts U ?t ?cands"
  let ?sorted = "sort_key (\<lambda>w. (- c_score w, c_name w)) ?raw"
  let ?ws = "map candidate_winner ?sorted"
  from company_score_norm [OF assms(4)] obtain nm where nm: "norm_company U cand = Some nm" ..
  have "cand \<noteq> []" "Some cand \<in> set (m_groups ?t m n)"
    using first_group_nonempty [OF assms(3)] by simp_all
  then have ne: "?t \<noteq> []"
    using m_groups_Nil by fastforce
  have "\<lparr>c_name = nm, c_amount = None, c_score = company_score U cand ?t (m_start m, m_end m),
         c_pos = (m_start m, m_end m)\<rparr> \<in> set (candidate_of U ?t n m)"
    using assms(3,4) nm by (simp add: candidate_of_def Let_def)
  then have "\<exists>c. c \<in> set ?cands"
    unfolding winners_raw_iff using assms(1,2) by blast
  then have raw0: "?cands \<noteq> []" by auto
  have names: "c_name c \<noteq> []" if "c \<in> set ?cands" for c
  proof -
    from that obtain r' n' m' where "c \<in> set (candidate_of U ?t n' m')"
      unfolding winners_raw_iff by blast
    from candidate_ofD [OF this] obtain cand' where "norm_company U cand' = Some (c_name c)"
      by blast
    then show ?thesis by (rule norm_company_nonempty)
  qed
  have "length (map c_name ?raw) = length (map c_name ?cands)"
    by (simp only: assign_amounts_names)
  then have "length ?raw = length ?cands" by simp
  then have raw: "?raw \<noteq> []" using raw0 by auto
  have names': "c_name c \<noteq> []" if "c \<in> set ?raw" for c
  proof -
    from that have "c_name c \<in> set (map c_name ?raw)" by simp
    then have "c_name c \<in> set (map c_name ?cands)" by (simp only: assign_amounts_names)
    then obtain c' where "c' \<in> set ?cands" "c_name c' = c_name c" by auto
    then show ?thesis using names by fastforce
  qed
  have sorted_raw: "?sorted \<noteq> []" using raw by (simp only: sort_key_Nil_iff not_False_eq_True)
  then have sorted_ne: "?ws \<noteq> []" by simp
  have "hd ?sorted \<in> set ?sorted" using sorted_raw by (rule hd_in_set)
  then have "hd ?sorted \<in> set ?raw" by simp
  then have "c_name (hd ?sorted) \<noteq> []" by (rule names')
  moreover have "hd ?ws = candidate_winner (hd ?sorted)" using sorted_raw by (rule hd_map)
  ultimately have hdn: "w_name (hd ?ws) \<noteq> []"
    by (simp add: w_name_candidate_winner)
  have d: "dedup_names [] ?ws \<noteq> []" "hd (dedup_names [] ?ws) = hd ?ws"
    using dedup_names_nonempty [OF sorted_ne hdn] hd_dedup_names [OF sorted_ne hdn] by simp_all
  have fb: "fst (fallback_extract U text) = take 10 (dedup_names [] ?ws)"
    using ne by (simp add: fallback_extract_def Let_def)
  have "hd (take 10 (dedup_names [] ?ws)) = hd (dedup_names [] ?ws)"
    by (rule hd_take) simp
  then show ?thesis using d hdn by (simp only: fb) simp
qed


section \<open>The order of the top winners\<close>


lemma keys_counter_inc:
  "map fst (counter_inc k c) = (if k \<in> set (map fst c) then map fst c else map fst c @ [k])"
  by (induction c) force+

lemma distinct_counter_inc: "distinct (map fst c) \<Longrightarrow> distinct (map fst (counter_inc k c))"
  by (simp add: keys_counter_inc)

lemma distinct_count_names: "distinct (map fst c) \<Longrightarrow> distinct (map fst (count_names c ws))"
proof (induction ws arbitrary: c)
  case Nil
  then show ?case by (simp add: count_names_def)
next
  case (Cons w ws)
  have "count_names c (w # ws) = count_names (if w_name w \<noteq> [] then counter_inc (w_name w) c else c) ws"
    by (simp add: count_names_def)
  moreover have "distinct (map fst (if w_name w \<noteq> [] then counter_inc (w_name w) c else c))"
    using Cons.prems by (simp add: distinct_counter_inc)
  ultimately show ?case using Cons.IH by simp
qed

lemma distinct_win_counter: "distinct (map fst (fst (global_fallback U pages st)))"
  by (simp add: global_fallback_def Let_def distinct_count_names split: prod.split)

lemma most_common_desc: "sorted_wrt (\<lambda>a b. snd b \<le> snd a) (most_common n c)"
proof -
  let ?f = "\<lambda>(k::pystr, v::nat). - int v"
  have "sorted (map ?f (sort_key ?f c))" by (rule sorted_sort_key)
  then have "sorted_wrt (\<lambda>a b. ?f a \<le> ?f b) (sort_key ?f c)" by (simp add: sorted_map)
  then have "sorted_wrt (\<lambda>a b. snd b \<le> snd a) (sort_key ?f c)"
    by (rule sorted_wrt_mono_rel [rotated]) auto
  then show ?thesis unfolding most_common_def by (rule sorted_wrt_take)
qed

lemma most_common_stable:
  "prefix (filter (\<lambda>item. snd item = m) (most_common n c)) (filter (\<lambda>item. snd item = m) c)"
proof -
  let ?f = "\<lambda>(k::pystr, v::nat). - int v"
  let ?s = "sort_key ?f c"
  have eq: "(\<lambda>item. snd item = m) = (\<lambda>y. ?f y = - int m)" by auto
  have "filter (\<lambda>y. ?f y = - int m) ?s = filter (\<lambda>y. ?f y = - int m) c"
    by (rule sort_key_stable)
  then have st: "filter (\<lambda>item. snd item = m) ?s = filter (\<lambda>item. snd item = m) c"
    by (simp only: eq)
  have "filter (\<lambda>item. snd item = m) ?s =
      filter (\<lambda>item. snd item = m) (take n ?s) @ filter (\<lambda>item. snd item = m) (drop n ?s)"
    by (simp only: filter_append [symmetric] append_take_drop_id)
  then have "prefix (filter (\<lambda>item. snd item = m) (take n ?s)) (filter (\<lambda>item. snd item = m) ?s)"
    by (simp only: prefixI)
  then show ?thesis by (simp only: most_common_def st)
qed

lemma topWinners_aggregate:
  "topWinners (snap_signals (aggregate U pages query st)) =
     map top_winner_of (most_common 8 (fst (global_fallback U pages st)))"
proof -
  have "(\<lambda>(nm, wins). \<lparr>tw_name = nm, tw_wins = wins\<rparr>) = top_winner_of"
    by (auto simp: top_winner_of_def)
  then show ?thesis
    by (simp add: aggregate_def Let_def split: prod.split)
qed


text \<open>A capability that reports two winners on the page of scenario A.\<close>


lemma norm_candidate_beta: "norm_candidate name_beta = name_beta"
  by (simp add: norm_candidate_def name_beta_def str_eval rx_eval pat_eval cls_eval)

lemma norm_candidate_alpha: "norm_candidate name_alpha = name_alpha"
  by (simp add: norm_candidate_def name_alpha_def str_eval rx_eval pat_eval cls_eval)

lemma norm_company_beta: "norm_company ucd_basic name_beta = Some name_beta"
proof -
  have 1: "name_beta \<noteq> []" "length name_beta = 8" "str_in [0x20] name_beta"
    by (simp_all add: name_beta_def)
  have 2: "\<not> list_ex (\<lambda>k. str_in k name_beta) BAN_TOKENS"
    by (simp add: name_beta_def BAN_TOKENS_def)
  have 3: "list_ex (\<lambda>c. is_hangul c \<or> is_ascii_letter c) name_beta"
    by (simp add: name_beta_def is_ascii_letter_def)
  have 4: "count_letters ucd_basic name_beta = 7"
    by (simp add: count_letters_def name_beta_def ucd_basic_def is_hangul_def is_ascii_letter_def is_ascii_digit_def)
  show ?thesis
    by (simp add: norm_company_def Let_def norm_candidate_beta 1 2 3 4)
qed

lemma norm_company_alpha: "norm_company ucd_basic name_alpha = Some name_alpha"
proof -
  have 1: "name_alpha \<noteq> []" "length name_alpha = 9" "str_in [0x20] name_alpha"
    by (simp_all add: name_alpha_def)
  have 2: "\<not> list_ex (\<lambda>k. str_in k name_alpha) BAN_TOKENS"
    by (simp add: name_alpha_def BAN_TOKENS_def)
  have 3: "list_ex (\<lambda>c. is_hangul c \<or> is_ascii_letter c) name_alpha"
    by (simp add: name_alpha_def is_ascii_letter_def)
  have 4: "count_letters ucd_basic name_alpha = 8"
    by (simp add: count_letters_def name_alpha_def ucd_basic_def is_hangul_def is_ascii_letter_def is_ascii_digit_def)
  show ?thesis
    by (simp add: norm_company_def Let_def norm_candidate_alpha 1 2 3 4)
qed

lemma keys_distinct:
  "key_winners \<noteq> key_reasons" "key_winners \<noteq> key_agency" "key_name \<noteq> key_amount"
  by (simp_all add: key_winners_def key_reasons_def key_agency_def key_name_def key_amount_def)

lemma process_two:
  "process_chunk ucd_basic (ask_two k title url ch) ([], [], []) =
     Inr ([\<lparr>w_name = name_beta, w_amount = JNull\<rparr>, \<lparr>w_name = name_alpha, w_amount = JNull\<rparr>], [], [])"
  using keys_distinct
  by (simp add: process_chunk_def ask_two_def get_or_def chunk_winner_def norm_company_json_def
      norm_company_beta norm_company_alpha Let_def)

lemma call_two:
  "call_llm ucd_basic ask_two 0 [] [] text_a =
     Inr \<lparr>x_winners = [\<lparr>w_name = name_beta, w_amount = JNull\<rparr>, \<lparr>w_name = name_alpha, w_amount = JNull\<rparr>],
          x_reasons = [], x_agency = []\<rparr>"
proof -
  have 1: "name_beta \<noteq> []" "name_alpha \<noteq> []" "name_alpha \<noteq> name_beta"
    by (simp_all add: name_beta_def name_alpha_def)
  show ?thesis
    by (simp add: call_llm_def chunk_a process_two merge_fallback_def finish_page_def
        most_common_def 1)
qed

lemma page_loop_two: "page_loop ucd_basic ask_two initial_state [page_a] = Inr state_two"
proof -
  have 1: "text_a \<noteq> []" by (simp add: text_a_def)
  have 2: "str_strip [] = []" by (simp add: str_strip_def strip_by_def)
  show ?thesis
    by (simp add: page_step_def initial_state_def state_two_def page_a_def clean_a call_two
        chunk_a truncate_a240 Let_def 1 2)
qed

lemma counter_two: "global_fallback ucd_basic [page_a] state_two = ([(name_beta, 1), (name_alpha, 1)], [], [])"
proof -
  have 1: "name_beta \<noteq> []" "name_alpha \<noteq> []" "name_alpha \<noteq> name_beta"
    by (simp_all add: name_beta_def name_alpha_def)
  show ?thesis
    by (simp add: global_fallback_def state_two_def count_names_def Let_def 1)
qed

lemma aggregate_two:
  "aggregate ucd_basic [page_a] query state_two =
     \<lparr>snap_query = query,
      snap_winners = [\<lparr>lw_name = name_beta, lw_count = 1\<rparr>, \<lparr>lw_name = name_alpha, lw_count = 1\<rparr>],
      snap_signals =
        \<lparr>topWinners = [\<lparr>tw_name = name_beta, tw_wins = 1\<rparr>, \<lparr>tw_name = name_alpha, tw_wins = 1\<rparr>],
         topReasons = [], agencies = []\<rparr>,
      snap_evidences = [\<lparr>ev_url = [], ev_title = [], ev_snippet = text_a\<rparr>],
      snap_score = no_score,
      snap_note = None\<rparr>"
  by (simp add: aggregate_def counter_two most_common_def Let_def) (simp add: state_two_def)

lemma alpha_less_beta: "name_alpha < name_beta"
  by (simp add: name_alpha_def name_beta_def)


lemma snapshot_two:
  "build_awards_snapshot_llm ucd_basic (Some ask_two) [page_a] [] = Inr payload_two"
proof -
  have "\<not> list_ex (\<lambda>w. w_name w \<noteq> [] \<and> float_overflows (w_amount w)) (all_winners state_two)"
    by (simp add: state_two_def float_overflows_def)
  then show ?thesis
    using page_loop_two
    by (simp add: build_awards_snapshot_llm_def initial_state_def aggregate_two payload_two_def)
qed

section \<open>The claims\<close>

text \<open>
  C1 (scenario A), as the code has it by design. For the single page with the text of
  scenario A: when the capability cannot be constructed, \<open>build_awards_snapshot_llm\<close>
  returns the flagged payload, with empty \<open>winners\<close> and \<open>topWinners\<close>; the deterministic
  extractor is not run. Run on that text, the deterministic extractor returns exactly
  one winner, and its amount is the string \<open>1,200,000,000 won\<close> as written. When the
  capability is there and reports nothing, the fallback fires and \<open>topWinners\<close> has exactly
  one entry, with \<open>wins = 1\<close>. (Nothing is said here about the name of that winner.)
\<close>

theorem C1_scenario_a:
  "build_awards_snapshot_llm ucd_basic None [page_a] query =
     Inr \<lparr>snap_query = query, snap_winners = [],
          snap_signals = \<lparr>topWinners = [], topReasons = [], agencies = []\<rparr>,
          snap_evidences = [], snap_score = no_score, snap_note = Some note_unavailable\<rparr> \<and>
   map w_amount (fst (fallback_extract ucd_basic text_a)) = [JStr amount_a] \<and>
   (case build_awards_snapshot_llm ucd_basic (Some ask_nothing) [page_a] query of
      Inl e \<Rightarrow> []
    | Inr s \<Rightarrow> map tw_wins (topWinners (snap_signals s))) = [1]"
  by (simp add: fallback_a snapshot_a) (simp add: build_awards_snapshot_llm_def)

text \<open>
  The claim as the specification states it fails on scenario A: with the capability
  unavailable the payload for that page has no entry in \<open>topWinners\<close> and no winner at all.
\<close>

theorem C1_counterexample:
  "build_awards_snapshot_llm ucd_basic None [page_a] [] =
     Inr \<lparr>snap_query = [], snap_winners = [],
          snap_signals = \<lparr>topWinners = [], topReasons = [], agencies = []\<rparr>,
          snap_evidences = [], snap_score = no_score, snap_note = Some note_unavailable\<rparr>"
  by (simp add: build_awards_snapshot_llm_def)

text \<open>
  C2, as the code has it. When the capability is available, the page loop ends in the
  state \<open>st\<close> and \<open>build_awards_snapshot_llm\<close> returns a payload, the payload is the one built
  from \<open>st\<close>, and its \<open>topWinners\<close> list is sorted by descending win count. Equal win counts
  are not ordered by name: the names of the winner counter are distinct, and the entries
  with \<open>n\<close> wins stand in the order in which their names entered the counter (they are an
  initial segment of the counter's items with \<open>n\<close> wins). Without the capability the list
  is empty.
\<close>

theorem C2_top_winners_order:
  assumes "page_loop U ask initial_state pages = Inr st"
    and "build_awards_snapshot_llm U (Some ask) pages query = Inr s"
  shows "s = aggregate U pages query st \<and>
    sorted_wrt (\<lambda>a b. tw_wins b \<le> tw_wins a) (topWinners (snap_signals s)) \<and>
    distinct (map fst (fst (global_fallback U pages st))) \<and>
    prefix (filter (\<lambda>e. tw_wins e = n) (topWinners (snap_signals s)))
      (map top_winner_of (filter (\<lambda>item. snd item = n) (fst (global_fallback U pages st))))"
proof -
  let ?c = "fst (global_fallback U pages st)"
  have 1: "s = aggregate U pages query st"
    using assms by (simp add: build_awards_snapshot_llm_def initial_state_def split: if_splits)
  have 2: "sorted_wrt (\<lambda>a b. tw_wins b \<le> tw_wins a) (map top_winner_of (most_common 8 ?c))"
    using most_common_desc [of 8 ?c] by (simp add: sorted_wrt_map top_winner_of_def)
  have "filter (\<lambda>e. tw_wins e = n) (map top_winner_of (most_common 8 ?c)) =
      map top_winner_of (filter (\<lambda>item. snd item = n) (most_common 8 ?c))"
    by (simp add: filter_map comp_def top_winner_of_def)
  then have 3: "prefix (filter (\<lambda>e. tw_wins e = n) (map top_winner_of (most_common 8 ?c)))
      (map top_winner_of (filter (\<lambda>item. snd item = n) ?c))"
    using most_common_stable [of n 8 ?c] by (simp add: map_mono_prefix)
  show ?thesis using 2 3 distinct_win_counter by (simp only: 1 topWinners_aggregate simp_thms)
qed

theorem C2_top_winners_order_witness:
  "page_loop ucd_basic ask_two initial_state [page_a] = Inr state_two \<and>
   build_awards_snapshot_llm ucd_basic (Some ask_two) [page_a] [] = Inr payload_two \<and>
   payload_two = aggregate ucd_basic [page_a] [] state_two \<and>
   sorted_wrt (\<lambda>a b. tw_wins b \<le> tw_wins a) (topWinners (snap_signals payload_two)) \<and>
   distinct (map fst (fst (global_fallback ucd_basic [page_a] state_two))) \<and>
   prefix (filter (\<lambda>e. tw_wins e = 1) (topWinners (snap_signals payload_two)))
     (map top_winner_of (filter (\<lambda>item. snd item = 1) (fst (global_fallback ucd_basic [page_a] state_two))))"
proof -
  have h: "page_loop ucd_basic ask_two initial_state [page_a] = Inr state_two"
    by (rule page_loop_two)
  have b: "build_awards_snapshot_llm ucd_basic (Some ask_two) [page_a] [] = Inr payload_two"
    by (rule snapshot_two)
  from h b C2_top_winners_order [OF h b, of 1] show ?thesis by blast
qed

text \<open>
  The tie-break by ascending name fails: the capability reports \<open>Beta Inc\<close> before
  \<open>Alpha Inc\<close> on one page; both have one win, and \<open>topWinners\<close> lists \<open>Beta Inc\<close> first.
\<close>

theorem C2_counterexample:
  "build_awards_snapshot_llm ucd_basic (Some ask_two) [page_a] [] = Inr payload_two \<and>
   map tw_name (topWinners (snap_signals payload_two)) = [name_beta, name_alpha] \<and>
   map tw_wins (topWinners (snap_signals payload_two)) = [1, 1] \<and>
   name_alpha < name_beta"
  by (simp add: snapshot_two alpha_less_beta) (simp add: payload_two_def)

text \<open>
  C3. For every page list and query, and whatever the capability replies, the payload
  that \<open>build_awards_snapshot_llm\<close> returns keeps all caps at once: at most 8 entries in
  \<open>topWinners\<close>, 8 in \<open>topReasons\<close>, 6 in \<open>agencies\<close>, 20 evidences and 5 legacy winners.
  (The call can only fail by a \<open>TypeError\<close> on a reply whose \<open>winners\<close> or \<open>reasons\<close> is
  not iterable, or by an \<open>OverflowError\<close> on an integer amount beyond the floats; then
  there is no payload.)
\<close>

theorem C3_caps:
  "case build_awards_snapshot_llm U client pages query of Inl e \<Rightarrow> True | Inr s \<Rightarrow> caps_ok s"
proof (cases client)
  case None
  then show ?thesis by (simp add: build_awards_snapshot_llm_def caps_ok_def)
next
  case (Some ask)
  then show ?thesis by (simp add: build_awards_snapshot_llm_def caps_aggregate split: sum.split)
qed

theorem C3_caps_witness:
  "build_awards_snapshot_llm ucd_basic (Some ask_two) [page_a] [] = Inr payload_two \<and>
   caps_ok payload_two"
  using C3_caps [of ucd_basic "Some ask_two" "[page_a]" "[]"] by (simp add: snapshot_two)

text \<open>
  C4. For any page body on which one of the three company patterns has a match whose
  candidate scores at least 2 (on the cleaned body, which is what the extractor scans):
  if the chunk loop of \<open>_call_llm\<close> ends with no winner accumulated, \<open>_call_llm\<close> returns a
  result with a non-empty winner list. The winners are those of the deterministic
  extractor on the full body; its reasons are taken only if the loop gave no reason, and
  its agency only if the loop gave no agency vote.
\<close>

theorem C4_fallback:
  assumes "chunk_loop U ask k title url (chunk_text body 9000) ([], [], []) = Inr ([], rs, votes)"
    and "(r, n) \<in> set COMPANY_PATTERNS"
    and "m \<in> set (finditer r (clean_html_ws body))"
    and "first_group (m_groups (clean_html_ws body) m n) = Some cand"
    and "2 \<le> company_score U cand (clean_html_ws body) (m_start m, m_end m)"
  shows "\<exists>x. call_llm U ask k title url body = Inr x \<and> x_winners x \<noteq> [] \<and>
           x_winners x = dedup_names [] (fst (fallback_extract U body)) \<and>
           x_reasons x = (if rs = [] then fst (snd (fallback_extract U body)) else rs) \<and>
           x_agency x =
             (if votes = [] then (case snd (snd (fallback_extract U body)) of None \<Rightarrow> [] | Some a \<Rightarrow> a)
              else x_agency (finish_page ([], rs, votes)))"
proof -
  obtain fw fr fa where fb: "fallback_extract U body = (fw, fr, fa)"
    by (cases "fallback_extract U body") auto
  from fallback_fires [OF assms(2-5)] fb have fw: "fw \<noteq> []" "w_name (hd fw) \<noteq> []" by simp_all
  then have ne: "dedup_names [] fw \<noteq> []" by (rule dedup_names_nonempty)
  have call: "call_llm U ask k title url body = Inr (finish_page (merge_fallback U body ([], rs, votes)))"
    by (simp add: call_llm_def assms(1))
  have w: "x_winners (finish_page (merge_fallback U body ([], rs, votes))) = dedup_names [] fw"
    by (simp add: merge_fallback_def fb finish_page_def split: option.split)
  have rsn: "x_reasons (finish_page (merge_fallback U body ([], rs, votes))) = (if rs = [] then fr else rs)"
    by (simp add: merge_fallback_def fb finish_page_def split: option.split)
  have ag: "x_agency (finish_page (merge_fallback U body ([], rs, votes))) =
      (if votes = [] then (case fa of None \<Rightarrow> [] | Some a \<Rightarrow> a) else x_agency (finish_page ([], rs, votes)))"
    by (simp add: merge_fallback_def fb finish_page_def most_common_def split: option.split)
  show ?thesis using ne by (simp add: call w rsn ag fb)
qed

theorem C4_fallback_witness:
  "chunk_loop ucd_basic ask_nothing 0 [] [] (chunk_text text_a 9000) ([], [], []) = Inr ([], [], []) \<and>
   (COMPANY_REGEX_A, 1) \<in> set COMPANY_PATTERNS \<and>
   match_a \<in> set (finditer COMPANY_REGEX_A (clean_html_ws text_a)) \<and>
   first_group (m_groups (clean_html_ws text_a) match_a 1) = Some cand_a \<and>
   2 \<le> company_score ucd_basic cand_a (clean_html_ws text_a) (m_start match_a, m_end match_a) \<and>
   (\<exists>x. call_llm ucd_basic ask_nothing 0 [] [] text_a = Inr x \<and> x_winners x \<noteq> [] \<and>
      x_winners x = dedup_names [] (fst (fallback_extract ucd_basic text_a)) \<and>
      x_reasons x = fst (snd (fallback_extract ucd_basic text_a)) \<and>
      x_agency x = (case snd (snd (fallback_extract ucd_basic text_a)) of None \<Rightarrow> [] | Some a \<Rightarrow> a))"
proof -
  have h1: "chunk_loop ucd_basic ask_nothing 0 [] [] (chunk_text text_a 9000) ([], [], []) =
      Inr ([], [], [])"
    by (rule loop_nothing)
  have h2: "(COMPANY_REGEX_A, 1) \<in> set COMPANY_PATTERNS"
    by (simp add: COMPANY_PATTERNS_def)
  have h3: "match_a \<in> set (finditer COMPANY_REGEX_A (clean_html_ws text_a))"
    by (simp add: clean_a finditer_a)
  have h4: "first_group (m_groups (clean_html_ws text_a) match_a 1) = Some cand_a"
    by (simp only: clean_a group_a)
  have h5: "2 \<le> company_score ucd_basic cand_a (clean_html_ws text_a) (m_start match_a, m_end match_a)"
    by (simp add: clean_a match_a_def score_a)
  from C4_fallback [OF h1 h2 h3 h4 h5] have
    "\<exists>x. call_llm ucd_basic ask_nothing 0 [] [] text_a = Inr x \<and> x_winners x \<noteq> [] \<and>
      x_winners x = dedup_names [] (fst (fallback_extract ucd_basic text_a)) \<and>
      x_reasons x = fst (snd (fallback_extract ucd_basic text_a)) \<and>
      x_agency x = (case snd (snd (fallback_extract ucd_basic text_a)) of None \<Rightarrow> [] | Some a \<Rightarrow> a)"
    by simp
  with h1 h2 h3 h4 h5 show ?thesis by blast
qed

text \<open>
  C5. When the capability cannot be constructed, \<open>build_awards_snapshot_llm\<close> returns,
  and does not raise, the payload with the keys \<open>query\<close>, \<open>winners\<close>, \<open>signals\<close> (with
  \<open>topWinners\<close>, \<open>topReasons\<close>, \<open>agencies\<close>), \<open>evidences\<close> and \<open>score\<close>, all lists empty, and
  with the key \<open>note\<close> set to \<open>LLM unavailable\<close>.
\<close>

theorem C5_unavailable:
  "build_awards_snapshot_llm U None pages query =
     Inr \<lparr>snap_query = query, snap_winners = [],
          snap_signals = \<lparr>topWinners = [], topReasons = [], agencies = []\<rparr>,
          snap_evidences = [],
          snap_score = \<lparr>sc_tech = JNull, sc_price = JNull, sc_total = JNull\<rparr>,
          snap_note = Some note_unavailable\<rparr>"
  by (simp add: build_awards_snapshot_llm_def no_score_def)

text \<open>
  C6. For every text, every name in the winners of the deterministic extractor
  \<open>_fallback_extract\<close> arises from a match of one of the three company patterns on the
  cleaned text whose candidate (the first non-empty group) has a \<open>_company_score\<close>, against
  that text and the span of the match, of at least 2, and normalises to the name. No
  candidate with a score below 2 gets into the output.
\<close>

theorem C6_score_threshold:
  assumes "w \<in> set (fst (fallback_extract U text))"
  shows "\<exists>r n m cand. (r, n) \<in> set COMPANY_PATTERNS \<and>
           m \<in> set (finditer r (clean_html_ws text)) \<and>
           first_group (m_groups (clean_html_ws text) m n) = Some cand \<and>
           2 \<le> company_score U cand (clean_html_ws text) (m_start m, m_end m) \<and>
           norm_company U cand = Some (w_name w)"
proof -
  from fallback_winner_raw [OF assms] obtain c where
    c: "c \<in> set (winners_raw U (clean_html_ws text))" "c_name c = w_name w" by auto
  from c(1) obtain r n m where rnm: "(r, n) \<in> set COMPANY_PATTERNS"
      "m \<in> set (finditer r (clean_html_ws text))"
      "c \<in> set (candidate_of U (clean_html_ws text) n m)"
    unfolding winners_raw_iff by blast
  from candidate_ofD [OF rnm(3)] obtain cand where
    "first_group (m_groups (clean_html_ws text) m n) = Some cand"
    "2 \<le> company_score U cand (clean_html_ws text) (m_start m, m_end m)"
    "norm_company U cand = Some (c_name c)" by blast
  with rnm(1,2) c(2) show ?thesis by auto
qed

theorem C6_score_threshold_witness:
  "\<lparr>w_name = name_a, w_amount = JStr amount_a\<rparr> \<in> set (fst (fallback_extract ucd_basic text_a)) \<and>
   (\<exists>r n m cand. (r, n) \<in> set COMPANY_PATTERNS \<and>
      m \<in> set (finditer r (clean_html_ws text_a)) \<and>
      first_group (m_groups (clean_html_ws text_a) m n) = Some cand \<and>
      2 \<le> company_score ucd_basic cand (clean_html_ws text_a) (m_start m, m_end m) \<and>
      norm_company ucd_basic cand = Some name_a)"
proof -
  have h: "\<lparr>w_name = name_a, w_amount = JStr amount_a\<rparr> \<in> set (fst (fallback_extract ucd_basic text_a))"
    by (simp add: fallback_a)
  show ?thesis using h C6_score_threshold [OF h] by simp
qed

text \<open>
  C7. For every name whose cleaned form (\<open>norm_candidate\<close>: whitespace normalised, the
  legal-form markers removed, the edges stripped) contains a phrase of the ban-list,
  \<open>_norm_company\<close> returns \<open>None\<close>.
\<close>

theorem C7_ban_list:
  "list_ex (\<lambda>k. str_in k (norm_candidate name)) BAN_TOKENS \<Longrightarrow> norm_company U name = None"
  by (simp add: norm_company_def Let_def)

theorem C7_ban_list_witness:
  "list_ex (\<lambda>k. str_in k (norm_candidate name_banned)) BAN_TOKENS \<and>
   norm_company ucd_basic name_banned = None"
proof -
  have h: "list_ex (\<lambda>k. str_in k (norm_candidate name_banned)) BAN_TOKENS"
    by (simp add: norm_candidate_banned BAN_TOKENS_def)
  show ?thesis using h C7_ban_list [OF h, of ucd_basic] by simp
qed

text \<open>
  C8. The text normalizer \<open>_clean_html_ws\<close> is idempotent: cleaning a cleaned string
  changes nothing.
\<close>

theorem C8_clean_idempotent: "clean_html_ws (clean_html_ws x) = clean_html_ws x"
  by (rule clean_html_ws_idem)

text \<open>
  C9. For every page list, the concentration signal \<open>cci\<close> of the market landscape lies
  in the closed interval from 0 to 1: it is the total number of occurrences of the four
  competition keywords in the page texts (joined by spaces), divided by 40 and clamped
  at 1.
\<close>

theorem C9_cci:
  "0 \<le> ml_cci (marketLandscape (build_competitor_intel_from_pages pages query)) \<and>
   ml_cci (marketLandscape (build_competitor_intel_from_pages pages query)) \<le> 1 \<and>
   ml_cci (marketLandscape (build_competitor_intel_from_pages pages query)) =
     min 1 (of_nat (sum_list (map (\<lambda>k. str_count k (str_join [0x20] (map p_text pages))) CCI_KEYS)) / 40)"
  by (simp add: build_competitor_intel_from_pages_def cci_signal_sum)

theorem C9_cci_witness:
  "ml_cci (marketLandscape (build_competitor_intel_from_pages pages_intel [])) = 3 / 40 \<and>
   0 \<le> ml_cci (marketLandscape (build_competitor_intel_from_pages pages_intel [])) \<and>
   ml_cci (marketLandscape (build_competitor_intel_from_pages pages_intel [])) \<le> 1"
  using C9_cci [of pages_intel "[]"] by (simp add: cci_counts)

text \<open>
  C10. For every page list, the evidences of the competitor intelligence are at most 10
  items, each a URL and a snippet of at most 260 characters, and they are the items, in
  page order and up to that cap, of exactly the pages that have a non-empty text and an
  award keyword in title plus text.
\<close>

theorem C10_intel_evidences:
  "length (ci_evidences (build_competitor_intel_from_pages pages query)) \<le> 10 \<and>
   list_all (\<lambda>e. length (ie_snippet e) \<le> 260)
     (ci_evidences (build_competitor_intel_from_pages pages query)) \<and>
   ci_evidences (build_competitor_intel_from_pages pages query) =
     take 10 (map intel_item (filter intel_contributes pages))"
proof -
  have eq: "ci_evidences (build_competitor_intel_from_pages pages query) =
      take 10 (map intel_item (filter intel_contributes pages))"
    by (simp add: build_competitor_intel_from_pages_def intel_loop_eq)
  show ?thesis by (simp add: eq intel_snippets_short)
qed

theorem C10_intel_evidences_witness:
  "ci_evidences (build_competitor_intel_from_pages pages_intel []) =
     [\<lparr>ie_url = [], ie_snippet = text_a\<rparr>, \<lparr>ie_url = [0x75], ie_snippet = text_b\<rparr>] \<and>
   length (ci_evidences (build_competitor_intel_from_pages pages_intel [])) \<le> 10 \<and>
   list_all (\<lambda>e. length (ie_snippet e) \<le> 260)
     (ci_evidences (build_competitor_intel_from_pages pages_intel []))"
proof -
  from C10_intel_evidences [of pages_intel "[]"] have
    l: "length (ci_evidences (build_competitor_intel_from_pages pages_intel [])) \<le> 10" and
    a: "list_all (\<lambda>e. length (ie_snippet e) \<le> 260)
          (ci_evidences (build_competitor_intel_from_pages pages_intel []))" and
    e: "ci_evidences (build_competitor_intel_from_pages pages_intel []) =
          take 10 (map intel_item (filter intel_contributes pages_intel))"
    by blast+
  from e have "ci_evidences (build_competitor_intel_from_pages pages_intel []) =
      [\<lparr>ie_url = [], ie_snippet = text_a\<rparr>, \<lparr>ie_url = [0x75], ie_snippet = text_b\<rparr>]"
    by (simp only: items_intel)
  with l a show ?thesis by blast
qed

end
